theory Spec2Isabelle
  imports
    Main
    "HOL-Library.Word"
    "HOL-Library.Multiset"
    "HOL-Library.List_Lexorder"
    "HOL-Library.Char_ord"
begin

section \<open>sshttp: HTTP abstractions over an SSH/SFTP session\<close>

text \<open>
  A shallow embedding of the Go package \<^verbatim>\<open>sshttp\<close>: the connection pair
  \<^verbatim>\<open>clientPair\<close>, \<^verbatim>\<open>dialSSHSFTP\<close> and the \<^verbatim>\<open>stickyError\<close>; the \<^verbatim>\<open>RoundTripper\<close>
  with its pool of connections, \<^verbatim>\<open>get\<close> and \<^verbatim>\<open>httpResponse\<close>
  (\<^verbatim>\<open>roundtripper.go\<close>); and the \<^verbatim>\<open>FileSystem\<close> with \<^verbatim>\<open>Open\<close>, \<^verbatim>\<open>Close\<close> and
  \<^verbatim>\<open>File.Readdir\<close>.

  Go values are modelled as follows. A \<^verbatim>\<open>string\<close> and a \<^verbatim>\<open>[]byte\<close> are lists of 8-bit
  characters; with the lexicographic order on lists and the byte order on characters,
  \<open><\<close> on \<^typ>\<open>string\<close> is Go's \<^verbatim>\<open><\<close> on strings. An \<^verbatim>\<open>error\<close> is an
  \<open>error option\<close>, \<open>None\<close> being \<^verbatim>\<open>nil\<close>. A pair of results \<^verbatim>\<open>(x, err)\<close> is
  either a pair of options, where the source returns a pointer that may be nil, or a sum
  \<open>error + 'a\<close>. An \<^verbatim>\<open>int\<close> is an unbounded integer: the offset of a directory handle
  stays between 0 and the length of the listing, and no other arithmetic is done on one.
  Every call to the SSH and SFTP libraries appends one event to a trace which the
  functions pass along, so that which remote operations ran, and in which order, can be
  stated.
\<close>

subsection \<open>Errors\<close>

datatype error =
    EOF                          \<comment> \<open>\<^verbatim>\<open>io.EOF\<close>\<close>
  | ErrClosedPipe                \<comment> \<open>\<^verbatim>\<open>io.ErrClosedPipe\<close>\<close>
  | ErrShortWrite                \<comment> \<open>\<^verbatim>\<open>io.ErrShortWrite\<close>\<close>
  | StatusError "32 word" string \<comment> \<open>\<^verbatim>\<open>*sftp.StatusError\<close> with its \<^verbatim>\<open>Code\<close> and message\<close>
  | OtherError string            \<comment> \<open>any error of another dynamic type\<close>
  | Panic string                 \<comment> \<open>a run-time panic (nil dereference, slice out of range)\<close>

definition sftpNoSuchFile :: "32 word" where
  "sftpNoSuchFile = 2"

definition StatusOK :: int where
  "StatusOK = 200"

definition StatusNotFound :: int where
  "StatusNotFound = 404"

definition StatusMethodNotAllowed :: int where
  "StatusMethodNotAllowed = 405"

subsection \<open>The standard library, as far as the package calls it\<close>

text \<open>
  The functions of Go's standard library whose results depend on tables or on the clock
  are parameters of the model: \<^verbatim>\<open>mime.TypeByExtension\<close>, \<^verbatim>\<open>filepath.Ext\<close>,
  \<^verbatim>\<open>filepath.Dir\<close>, \<^verbatim>\<open>filepath.Join\<close>, \<^verbatim>\<open>http.DetectContentType\<close>,
  \<^verbatim>\<open>strconv.FormatInt(_, 10)\<close>, \<^verbatim>\<open>t.UTC().Format(http.TimeFormat)\<close> and
  \<^verbatim>\<open>time.Now()\<close>.
\<close>

record stdlib =
  TypeByExtension :: "string \<Rightarrow> string"
  Ext :: "string \<Rightarrow> string"
  Dir :: "string \<Rightarrow> string"
  Join :: "string \<Rightarrow> string \<Rightarrow> string"
  DetectContentType :: "string \<Rightarrow> string"
  FormatInt :: "int \<Rightarrow> string"
  FormatTime :: "int \<Rightarrow> string"
  Now :: int

subsection \<open>Remote files and the SFTP and SSH clients\<close>

record FileInfo =
  Name :: string
  Size :: int
  ModTime :: int
  IsDir :: bool

text \<open>
  What the server holds for a path: the bytes, what \<^verbatim>\<open>Stat\<close> answers, and the failures
  the remote operations can meet. \<open>read_fault = Some (k, e)\<close> says that the bytes before
  offset \<open>k\<close> can be read and that reading the byte at offset \<open>k\<close> fails with \<open>e\<close>.
\<close>

record remote_file =
  contents :: string
  stat_result :: "error + FileInfo"
  read_fault :: "(nat \<times> error) option"
  seek_fault :: "error option"
  close_fault :: "error option"

text \<open>An open \<^verbatim>\<open>*sftp.File\<close>: the remote file, the read cursor, and whether it was closed.\<close>

record sftp_File =
  remote :: remote_file
  cursor :: nat
  closed :: bool

record sftp_Client =
  sftp_id :: nat
  lookup :: "string \<Rightarrow> error + remote_file"
  listing :: "string \<Rightarrow> error + FileInfo list"
  sftp_close :: "error option"

record ClientConfig =
  User :: string
  Auth :: "string list"

record ssh_Client =
  ssh_id :: nat
  subsystem :: "error + sftp_Client"  \<comment> \<open>what \<^verbatim>\<open>sftp.NewClient\<close> answers on this connection\<close>
  ssh_close :: "error option"

datatype event =
    EvDial string "ClientConfig option"  \<comment> \<open>\<^verbatim>\<open>ssh.Dial("tcp", host, config)\<close>\<close>
  | EvNewClient nat                      \<comment> \<open>\<^verbatim>\<open>sftp.NewClient\<close> on the connection with this id\<close>
  | EvCloseSFTP nat                      \<comment> \<open>\<^verbatim>\<open>Close\<close> of the SFTP client with this id\<close>
  | EvCloseSSH nat                       \<comment> \<open>\<^verbatim>\<open>Close\<close> of the SSH client with this id\<close>
  | EvOpen string                        \<comment> \<open>\<^verbatim>\<open>sftpc.Open(path)\<close>\<close>
  | EvReadDir string                     \<comment> \<open>\<^verbatim>\<open>sftpc.ReadDir(path)\<close>\<close>
  | EvStat                               \<comment> \<open>\<^verbatim>\<open>f.Stat()\<close>\<close>
  | EvRead int                           \<comment> \<open>reading up to so many bytes of the file\<close>
  | EvSeek int                           \<comment> \<open>\<^verbatim>\<open>f.Seek(off, os.SEEK_SET)\<close>\<close>
  | EvCloseFile                          \<comment> \<open>\<^verbatim>\<open>f.Close()\<close>\<close>
  | EvClosePipe "error option"           \<comment> \<open>\<^verbatim>\<open>pw.CloseWithError(err)\<close>\<close>

type_synonym trace = "event list"

text \<open>\<^verbatim>\<open>sftpc.Open\<close>: a handle on the remote file, its cursor at byte 0.\<close>

definition sftp_Open :: "sftp_Client \<Rightarrow> string \<Rightarrow> trace \<Rightarrow> (error + sftp_File) \<times> trace" where
  "sftp_Open c p tr =
     (case lookup c p of
        Inl e \<Rightarrow> (Inl e, tr @ [EvOpen p])
      | Inr r \<Rightarrow> (Inr \<lparr>remote = r, cursor = 0, closed = False\<rparr>, tr @ [EvOpen p]))"

definition sftp_ReadDir :: "sftp_Client \<Rightarrow> string \<Rightarrow> trace \<Rightarrow> (error + FileInfo list) \<times> trace" where
  "sftp_ReadDir c p tr = (listing c p, tr @ [EvReadDir p])"

definition sftp_Close :: "sftp_Client \<Rightarrow> trace \<Rightarrow> error option \<times> trace" where
  "sftp_Close c tr = (sftp_close c, tr @ [EvCloseSFTP (sftp_id c)])"

definition ssh_Close :: "ssh_Client \<Rightarrow> trace \<Rightarrow> error option \<times> trace" where
  "ssh_Close c tr = (ssh_close c, tr @ [EvCloseSSH (ssh_id c)])"

definition file_Stat :: "sftp_File \<Rightarrow> trace \<Rightarrow> (error + FileInfo) \<times> trace" where
  "file_Stat f tr = (stat_result (remote f), tr @ [EvStat])"

definition file_Seek :: "sftp_File \<Rightarrow> int \<Rightarrow> trace \<Rightarrow> (error + int) \<times> sftp_File \<times> trace" where
  "file_Seek f off tr =
     (case seek_fault (remote f) of
        Some e \<Rightarrow> (Inl e, f, tr @ [EvSeek off])
      | None \<Rightarrow> (Inr off, f\<lparr>cursor := nat off\<rparr>, tr @ [EvSeek off]))"

definition file_Close :: "sftp_File \<Rightarrow> trace \<Rightarrow> error option \<times> sftp_File \<times> trace" where
  "file_Close f tr = (close_fault (remote f), f\<lparr>closed := True\<rparr>, tr @ [EvCloseFile])"

text \<open>
  The \<^verbatim>\<open>Read\<close> calls that \<^verbatim>\<open>io.Copy\<close> makes on \<^verbatim>\<open>io.LimitReader(f, n)\<close>, taken
  together: the bytes they deliver, from the cursor on, and what ends them. \<open>None\<close>: the
  limit of \<open>n\<close> bytes was reached; \<open>Some EOF\<close>: the file ended before; another error:
  the read fault of the file.
\<close>

definition read_upto :: "sftp_File \<Rightarrow> nat \<Rightarrow> string \<times> error option \<times> sftp_File" where
  "read_upto f n =
     (let len = length (contents (remote f));
          lim = (case read_fault (remote f) of None \<Rightarrow> len | Some (k, e) \<Rightarrow> min k len);
          bs = take n (drop (cursor f) (take lim (contents (remote f))));
          er = (if length bs = n then None
                else (case read_fault (remote f) of
                        None \<Rightarrow> Some EOF
                      | Some (k, e) \<Rightarrow> if k < len then Some e else Some EOF))
      in (bs, er, f\<lparr>cursor := cursor f + length bs\<rparr>))"

text \<open>
  \<^verbatim>\<open>io.CopyN(dst, src, n)\<close>, for a destination given by its \<^verbatim>\<open>Write\<close>. As in
  \<^verbatim>\<open>io.Copy\<close>, nothing is written when nothing was read, a failed or short write ends
  the copy before the read error is looked at, and the end of the source is no error of the
  copy. As in \<^verbatim>\<open>io.CopyN\<close>, the result is \<^verbatim>\<open>(n, nil)\<close> when \<open>n\<close> bytes were written, and
  \<^verbatim>\<open>io.EOF\<close> when fewer were and the copy met no error.
\<close>

definition CopyN ::
  "('d \<Rightarrow> string \<Rightarrow> 'd \<times> nat \<times> error option) \<Rightarrow> 'd \<Rightarrow> sftp_File \<Rightarrow> int \<Rightarrow> trace \<Rightarrow>
     (int \<times> error option) \<times> 'd \<times> sftp_File \<times> trace" where
  "CopyN wr dst src n tr =
     (case read_upto src (nat n) of (bs, er, src') \<Rightarrow>
      (case (if bs = [] then (dst, 0, None) else wr dst bs) of (dst', nw, ew) \<Rightarrow>
        (let cerr = (if ew \<noteq> None then ew
                     else if nw \<noteq> length bs then Some ErrShortWrite
                     else if er = Some EOF then None else er);
             written = int nw
         in ((if written = n then (n, None)
              else if written < n \<and> cerr = None then (written, Some EOF)
              else (written, cerr)),
             dst', src', tr @ [EvRead n]))))"

text \<open>\<^verbatim>\<open>bytes.Buffer.Write\<close> appends and never fails.\<close>

definition Buffer_Write :: "string \<Rightarrow> string \<Rightarrow> string \<times> nat \<times> error option" where
  "Buffer_Write b bs = (b @ bs, length bs, None)"

subsection \<open>The in-memory pipe\<close>

text \<open>
  \<^verbatim>\<open>io.Pipe\<close>, seen from the writer: \<open>pbuf\<close> is what the reader gets, in order; \<open>rerr\<close>
  is set once the read side is closed, and then every write fails with it; \<open>werr\<close> is set
  by the first \<^verbatim>\<open>CloseWithError\<close> of the write side and is what the reader gets after the
  bytes (\<^verbatim>\<open>io.EOF\<close> for a close without error).
\<close>

record pipe =
  pbuf :: string
  rerr :: "error option"
  werr :: "error option"

definition io_Pipe :: pipe where
  "io_Pipe = \<lparr>pbuf = [], rerr = None, werr = None\<rparr>"

definition pipe_Write :: "pipe \<Rightarrow> string \<Rightarrow> pipe \<times> nat \<times> error option" where
  "pipe_Write p bs =
     (case rerr p of
        Some e \<Rightarrow> (p, 0, Some e)
      | None \<Rightarrow> (if werr p \<noteq> None then (p, 0, Some ErrClosedPipe)
                 else (p\<lparr>pbuf := pbuf p @ bs\<rparr>, length bs, None)))"

definition CloseWithError :: "pipe \<Rightarrow> error option \<Rightarrow> trace \<Rightarrow> error option \<times> pipe \<times> trace" where
  "CloseWithError p e tr =
     (None,
      (if werr p = None then p\<lparr>werr := Some (case e of None \<Rightarrow> EOF | Some x \<Rightarrow> x)\<rparr> else p),
      tr @ [EvClosePipe e])"

subsection \<open>The connection pair and the sticky error\<close>

record clientPair =
  sshc :: ssh_Client
  sftpc :: sftp_Client

text \<open>
  The network: what \<^verbatim>\<open>ssh.Dial\<close> answers for a host and a configuration. Its first
  argument is the number of dials made before, so that two dials of one host need not
  answer alike.
\<close>

type_synonym network = "nat \<Rightarrow> string \<Rightarrow> ClientConfig option \<Rightarrow> error + ssh_Client"

fun is_dial :: "event \<Rightarrow> bool" where
  "is_dial (EvDial h c) = True"
| "is_dial e = False"

definition dials :: "trace \<Rightarrow> nat" where
  "dials tr = length (filter is_dial tr)"

definition dialSSHSFTP ::
  "network \<Rightarrow> string \<Rightarrow> ClientConfig option \<Rightarrow> trace \<Rightarrow> (error + clientPair) \<times> trace" where
  "dialSSHSFTP net host config tr =
     (case net (dials tr) host config of
        Inl e \<Rightarrow> (Inl e, tr @ [EvDial host config])
      | Inr sc \<Rightarrow>
          (case subsystem sc of
             Inl e \<Rightarrow> (Inl e, tr @ [EvDial host config, EvNewClient (ssh_id sc)])
           | Inr fc \<Rightarrow>
               (Inr \<lparr>sshc = sc, sftpc = fc\<rparr>,
                tr @ [EvDial host config, EvNewClient (ssh_id sc)])))"

record stickyError =
  sticky_err :: "error option"

definition Set :: "stickyError \<Rightarrow> error option \<Rightarrow> stickyError" where
  "Set e x = (if sticky_err e \<noteq> None then e else e\<lparr>sticky_err := x\<rparr>)"

definition Get :: "stickyError \<Rightarrow> error option" where
  "Get e = sticky_err e"

subsection \<open>Responses\<close>

text \<open>
  \<^verbatim>\<open>http.Header\<close> is a map from keys to lists of values. \<^verbatim>\<open>Set\<close>, \<^verbatim>\<open>Add\<close> and
  \<^verbatim>\<open>Get\<close> put the key into its canonical form first; every key the package uses is in
  that form already, so the model looks keys up as they are.
\<close>

type_synonym Header = "string \<rightharpoonup> string list"

definition H_Set :: "Header \<Rightarrow> string \<Rightarrow> string \<Rightarrow> Header" where
  "H_Set h k v = h(k \<mapsto> [v])"

definition H_Add :: "Header \<Rightarrow> string \<Rightarrow> string \<Rightarrow> Header" where
  "H_Add h k v = h(k \<mapsto> (case h k of None \<Rightarrow> [] | Some vs \<Rightarrow> vs) @ [v])"

definition H_Get :: "Header \<Rightarrow> string \<Rightarrow> string" where
  "H_Get h k = (case h k of None \<Rightarrow> [] | Some vs \<Rightarrow> (case vs of [] \<Rightarrow> [] | v # _ \<Rightarrow> v))"

text \<open>
  The loop of \<^verbatim>\<open>httpResponse\<close> that adds every value of every key of \<open>hs\<close> to \<open>h\<close>.
  The order in which Go visits the keys does not show in the result: each key of \<open>hs\<close>
  gets its values appended, in their order, to those \<open>h\<close> has.
\<close>

definition H_AddAll :: "Header \<Rightarrow> Header \<Rightarrow> Header" where
  "H_AddAll h hs =
     (\<lambda>k. case hs k of
             None \<Rightarrow> h k
           | Some vs \<Rightarrow> fold (\<lambda>v g. H_Add g k v) vs h k)"

text \<open>
  The body of a response: the read side of the pipe that the goroutine started by
  \<^verbatim>\<open>get\<close> fills from the open file it holds, for the size it was given.
\<close>

datatype body = PipeReader sftp_File int

record Response =
  StatusCode :: int
  ProtoMajor :: int
  ProtoMinor :: int
  Body :: "body option"
  Header :: Header

definition httpResponse :: "stdlib \<Rightarrow> int \<Rightarrow> body option \<Rightarrow> Header \<Rightarrow> Response" where
  "httpResponse lib code bdy headers =
     (let h0 = H_Set Map.empty ''Server'' ''github.com/mdlayher/sshttp'';
          h1 = H_AddAll h0 headers;
          h2 = (if H_Get h1 ''Date'' = [] then H_Set h1 ''Date'' (FormatTime lib (Now lib)) else h1);
          h3 = (if H_Get h2 ''Content-Type'' = []
                then H_Set h2 ''Content-Type'' ''text/plain; charset=utf-8'' else h2);
          h4 = (if code \<noteq> StatusOK \<and> H_Get h3 ''Connection'' = []
                then H_Set h3 ''Connection'' ''close'' else h3)
      in \<lparr>StatusCode = code, ProtoMajor = 1, ProtoMinor = 1, Body = bdy, Header = h4\<rparr>)"

subsection \<open>The RoundTripper and its pool of connections\<close>

record RoundTripper =
  config :: "ClientConfig option"
  conn :: "string \<rightharpoonup> clientPair"

definition NewRoundTripper :: "ClientConfig option \<Rightarrow> RoundTripper" where
  "NewRoundTripper cfg = \<lparr>config = cfg, conn = Map.empty\<rparr>"

definition Dial ::
  "network \<Rightarrow> string \<Rightarrow> ClientConfig option \<Rightarrow> RoundTripper \<Rightarrow> trace \<Rightarrow>
     error option \<times> RoundTripper \<times> trace" where
  "Dial net host cfg rt tr =
     (let cfg' = (if cfg = None then config rt else cfg)
      in (case dialSSHSFTP net host cfg' tr of
            (Inl e, tr') \<Rightarrow> (Some e, rt, tr')
          | (Inr pair, tr') \<Rightarrow> (None, rt\<lparr>conn := (conn rt)(host \<mapsto> pair)\<rparr>, tr')))"

text \<open>
  \<^verbatim>\<open>RoundTripper.Close\<close> ranges over the map, in an order Go leaves open: the keys come
  as a list \<open>ks\<close>, which the theorems take to enumerate the map's keys once each. The
  loop closes the SFTP client, then the SSH client, and deletes the key; the first failed
  close returns.
\<close>

fun close_loop ::
  "string list \<Rightarrow> (string \<rightharpoonup> clientPair) \<Rightarrow> trace \<Rightarrow>
     error option \<times> (string \<rightharpoonup> clientPair) \<times> trace" where
  "close_loop [] m tr = (None, m, tr)"
| "close_loop (k # ks) m tr =
     (case m k of
        None \<Rightarrow> close_loop ks m tr
      | Some p \<Rightarrow>
          (case sftp_Close (sftpc p) tr of
             (Some e, tr1) \<Rightarrow> (Some e, m, tr1)
           | (None, tr1) \<Rightarrow>
               (case ssh_Close (sshc p) tr1 of
                  (Some e, tr2) \<Rightarrow> (Some e, m, tr2)
                | (None, tr2) \<Rightarrow> close_loop ks (m(k := None)) tr2)))"

definition Close :: "string list \<Rightarrow> RoundTripper \<Rightarrow> trace \<Rightarrow> error option \<times> RoundTripper \<times> trace" where
  "Close ks rt tr =
     (case close_loop ks (conn rt) tr of (e, m, tr') \<Rightarrow> (e, rt\<lparr>conn := m\<rparr>, tr'))"

definition lazyDial ::
  "network \<Rightarrow> string \<Rightarrow> RoundTripper \<Rightarrow> trace \<Rightarrow>
     (clientPair option \<times> error option) \<times> RoundTripper \<times> trace" where
  "lazyDial net host rt tr =
     (case conn rt host of
        Some p \<Rightarrow> ((Some p, None), rt, tr)
      | None \<Rightarrow>
          (case Dial net host (config rt) rt tr of
             (Some e, rt', tr') \<Rightarrow> ((None, Some e), rt', tr')
           | (None, rt', tr') \<Rightarrow> ((conn rt' host, None), rt', tr')))"

subsection \<open>get and RoundTrip\<close>

record Request =
  Method :: string
  URL_Host :: string
  URL_Path :: string

text \<open>
  The goroutine that \<^verbatim>\<open>get\<close> starts: copy \<open>size\<close> bytes of the file into the pipe,
  close the file, close the write side of the pipe with the first error of the two. The
  first component is the panic of the source, raised when \<^verbatim>\<open>CloseWithError\<close> itself
  returns an error.
\<close>

definition producer ::
  "sftp_File \<Rightarrow> int \<Rightarrow> pipe \<Rightarrow> trace \<Rightarrow> error option \<times> pipe \<times> sftp_File \<times> trace" where
  "producer f sz pw tr =
     (let sErr = \<lparr>sticky_err = None\<rparr>
      in (case CopyN pipe_Write pw f sz tr of ((n, e), pw1, f1, tr1) \<Rightarrow>
           (let sErr1 = Set sErr e
            in (case file_Close f1 tr1 of (ce, f2, tr2) \<Rightarrow>
                 (let sErr2 = Set sErr1 ce
                  in (case CloseWithError pw1 (Get sErr2) tr2 of
                        (Some x, pw2, tr3) \<Rightarrow> (Some (Panic ''CloseWithError''), pw2, f2, tr3)
                      | (None, pw2, tr3) \<Rightarrow> (None, pw2, f2, tr3)))))))"

text \<open>
  What a reader of the body gets when it reads to the end and never closes the body: the
  goroutine runs on a new pipe; the bytes, then the error the write side was closed with.
\<close>

definition read_body :: "body \<Rightarrow> string \<times> error option" where
  "read_body b =
     (case b of PipeReader f sz \<Rightarrow>
        (case producer f sz io_Pipe [] of (px, pw, f', tr) \<Rightarrow> (pbuf pw, werr pw)))"

definition get ::
  "stdlib \<Rightarrow> clientPair \<Rightarrow> Request \<Rightarrow> trace \<Rightarrow> (Response option \<times> error option) \<times> trace" where
  "get lib p r tr =
     (case sftp_Open (sftpc p) (URL_Path r) tr of
        (Inl e, tr1) \<Rightarrow>
          (case e of
             StatusError code msg \<Rightarrow>
               if code = sftpNoSuchFile
               then ((Some (httpResponse lib StatusNotFound None Map.empty), None), tr1)
               else ((None, Some e), tr1)
           | _ \<Rightarrow> ((None, Some e), tr1))
      | (Inr f, tr1) \<Rightarrow>
          (case file_Stat f tr1 of
             (Inl e, tr2) \<Rightarrow> ((None, Some e), tr2)
           | (Inr stat, tr2) \<Rightarrow>
               (let h = H_Set Map.empty ''Content-Length'' (FormatInt lib (Size stat));
                    h = H_Set h ''Last-Modified'' (FormatTime lib (ModTime stat));
                    cType = TypeByExtension lib (Ext lib (Name stat))
                in if cType \<noteq> []
                   then ((Some (httpResponse lib StatusOK (Some (PipeReader f (Size stat)))
                                  (H_Set h ''Content-Type'' cType)), None), tr2)
                   else
                     (case CopyN Buffer_Write [] f 512 tr2 of
                        ((rn, Some e), buf, f1, tr3) \<Rightarrow> ((None, Some e), tr3)
                      | ((rn, None), buf, f1, tr3) \<Rightarrow>
                          (let h = H_Set h ''Content-Type''
                                     (DetectContentType lib (take (nat rn) buf))
                           in (case file_Seek f1 0 tr3 of
                                 (Inl e, f2, tr4) \<Rightarrow> ((None, Some e), tr4)
                               | (Inr off, f2, tr4) \<Rightarrow>
                                   ((Some (httpResponse lib StatusOK
                                             (Some (PipeReader f2 (Size stat))) h), None),
                                    tr4)))))))"

definition RoundTrip ::
  "stdlib \<Rightarrow> network \<Rightarrow> Request \<Rightarrow> RoundTripper \<Rightarrow> trace \<Rightarrow>
     (Response option \<times> error option) \<times> RoundTripper \<times> trace" where
  "RoundTrip lib net r rt tr =
     (case lazyDial net (URL_Host r) rt tr of
        ((p, Some e), rt', tr') \<Rightarrow> ((None, Some e), rt', tr')
      | ((p, None), rt', tr') \<Rightarrow>
          if Method r = ''GET''
          then (case p of
                  None \<Rightarrow> ((None, Some (Panic ''nil pointer dereference'')), rt', tr')
                | Some cp \<Rightarrow> (case get lib cp r tr' of (res, tr'') \<Rightarrow> (res, rt', tr'')))
          else ((Some (httpResponse lib StatusMethodNotAllowed None Map.empty), None), rt', tr'))"

subsection \<open>File and FileSystem\<close>

record File =
  handle :: sftp_File        \<comment> \<open>the embedded \<^verbatim>\<open>*sftp.File\<close>\<close>
  file_sftpc :: sftp_Client
  name :: string
  offset :: int
  eofNext :: bool

text \<open>
  \<^verbatim>\<open>sort.Sort(byBaseName(fis))\<close> orders the entries by \<^verbatim>\<open>Name()\<close>, ascending. Go's sort
  is not stable; where no two entries share a name there is one sorted order, and the
  insertion sort below gives it.
\<close>

definition byBaseName :: "FileInfo list \<Rightarrow> FileInfo list" where
  "byBaseName fis = sort_key Name fis"

text \<open>
  A slice expression \<^verbatim>\<open>fis[lo:hi]\<close> panics unless \<open>0 \<le> lo \<le> hi \<le> cap(fis)\<close>. In
  both slice expressions of \<^verbatim>\<open>Readdir\<close> the upper index is at most \<^verbatim>\<open>len(fis)\<close>, the
  second by the test before it, so the bound is written with the length.
\<close>

definition slice :: "'a list \<Rightarrow> int \<Rightarrow> int \<Rightarrow> error + 'a list" where
  "slice xs lo hi =
     (if 0 \<le> lo \<and> lo \<le> hi \<and> hi \<le> int (length xs)
      then Inr (take (nat hi - nat lo) (drop (nat lo) xs))
      else Inl (Panic ''slice bounds out of range''))"

definition Readdir ::
  "stdlib \<Rightarrow> int \<Rightarrow> File \<Rightarrow> trace \<Rightarrow> (error + FileInfo list) \<times> File \<times> trace" where
  "Readdir lib cnt f tr =
     (if eofNext f then (Inl EOF, f, tr)
      else
        (case sftp_ReadDir (file_sftpc f) (Dir lib (name f)) tr of
           (Inl e, tr1) \<Rightarrow> (Inl e, f, tr1)
         | (Inr fis0, tr1) \<Rightarrow>
             (let fis = byBaseName fis0
              in if cnt \<le> 0 \<or> int (length fis) \<le> cnt
                 then (Inr fis, f\<lparr>eofNext := True\<rparr>, tr1)
                 else if int (length fis) - offset f \<le> cnt
                 then (slice fis (offset f) (int (length fis)), f\<lparr>eofNext := True\<rparr>, tr1)
                 else
                   (case slice fis (offset f) (offset f + cnt) of
                      Inl e \<Rightarrow> (Inl e, f, tr1)
                    | Inr out \<Rightarrow> (Inr out, f\<lparr>offset := offset f + cnt\<rparr>, tr1)))))"

record FileSystem =
  pair :: clientPair
  path :: string

definition Open ::
  "stdlib \<Rightarrow> FileSystem \<Rightarrow> string \<Rightarrow> trace \<Rightarrow> (error + File) \<times> trace" where
  "Open lib fs nm tr =
     (let fpath = Join lib (path fs) nm
      in (case sftp_Open (sftpc (pair fs)) fpath tr of
            (Inl e, tr1) \<Rightarrow> (Inl e, tr1)
          | (Inr f, tr1) \<Rightarrow>
              (let file = \<lparr>handle = f, file_sftpc = sftpc (pair fs), name = path fs,
                           offset = 0, eofNext = False\<rparr>
               in (case file_Stat f tr1 of
                     (Inl e, tr2) \<Rightarrow> (Inl e, tr2)
                   | (Inr stat, tr2) \<Rightarrow>
                       (if IsDir stat then (Inr (file\<lparr>name := fpath @ ''/''\<rparr>), tr2)
                        else (Inr file, tr2))))))"

definition FileSystem_Close :: "FileSystem \<Rightarrow> trace \<Rightarrow> error option \<times> trace" where
  "FileSystem_Close fs tr =
     (let sErr = \<lparr>sticky_err = None\<rparr>
      in (case sftp_Close (sftpc (pair fs)) tr of (e1, tr1) \<Rightarrow>
           (let sErr1 = Set sErr e1
            in (case ssh_Close (sshc (pair fs)) tr1 of (e2, tr2) \<Rightarrow>
                 (let sErr2 = Set sErr1 e2
                  in (Get sErr2, tr2))))))"

subsection \<open>Reading a directory to its end\<close>

text \<open>
  A caller that pages through a directory: it calls \<^verbatim>\<open>Readdir\<close> with one page size until
  a call returns an error (\<^verbatim>\<open>io.EOF\<close> included) and collects the pages. Each call either
  ends the listing or moves the offset forward, so the loop ends.
\<close>

definition remaining :: "stdlib \<Rightarrow> File \<Rightarrow> nat" where
  "remaining lib f =
     (if eofNext f then 0
      else (case listing (file_sftpc f) (Dir lib (name f)) of
              Inl e \<Rightarrow> 1
            | Inr fis \<Rightarrow> 2 + nat (int (length fis) - offset f)))"

function drain :: "stdlib \<Rightarrow> int \<Rightarrow> File \<Rightarrow> trace \<Rightarrow> FileInfo list list \<times> File \<times> trace" where
  "drain lib cnt f tr =
     (case Readdir lib cnt f tr of
        (Inl e, f', tr') \<Rightarrow> ([], f', tr')
      | (Inr page, f', tr') \<Rightarrow>
          (case drain lib cnt f' tr' of (pages, f'', tr'') \<Rightarrow> (page # pages, f'', tr'')))"
  by pat_completeness auto
termination
  apply (relation "measure (\<lambda>(lib, cnt, f, tr). remaining lib f)")
  subgoal by simp
  subgoal for lib cnt f tr res rest page f' tr'
    by (auto simp: Readdir_def sftp_ReadDir_def remaining_def slice_def Let_def byBaseName_def
        split: if_splits sum.splits)
  done

declare drain.simps [simp del]

subsection \<open>A server to run the package against\<close>

text \<open>
  A small remote host for the worked examples: the directory \<^verbatim>\<open>/home/user\<close> with three
  regular files, listed by the server out of order. \<open>demo_Ext\<close> is \<^verbatim>\<open>filepath.Ext\<close>;
  \<open>demo_Dir\<close> and \<open>demo_Join\<close> agree with \<^verbatim>\<open>filepath.Dir\<close> and \<^verbatim>\<open>filepath.Join\<close>
  on the absolute paths of the examples (no \<^verbatim>\<open>.\<close>, \<^verbatim>\<open>..\<close> or doubled separator in
  either argument); the extension table knows \<^verbatim>\<open>.txt\<close> only, and the remaining
  functions are stand-ins.
\<close>

fun ext_scan :: "string \<Rightarrow> string \<Rightarrow> string" where
  "ext_scan acc [] = []"
| "ext_scan acc (c # cs) =
     (if c = CHR ''/'' then []
      else if c = CHR ''.'' then c # acc
      else ext_scan (c # acc) cs)"

definition demo_Ext :: "string \<Rightarrow> string" where
  "demo_Ext p = ext_scan [] (rev p)"

definition demo_Dir :: "string \<Rightarrow> string" where
  "demo_Dir p =
     (case rev (dropWhile (\<lambda>c. c \<noteq> CHR ''/'') (rev p)) of
        [] \<Rightarrow> ''.''
      | d # ds \<Rightarrow> if ds = [] then ''/'' else butlast (d # ds))"

definition demo_Join :: "string \<Rightarrow> string \<Rightarrow> string" where
  "demo_Join a b =
     (let s = a @ b in if s \<noteq> ''/'' \<and> s \<noteq> [] \<and> last s = CHR ''/'' then butlast s else s)"

definition demo_lib :: stdlib where
  "demo_lib =
     \<lparr>TypeByExtension = (\<lambda>e. if e = ''.txt'' then ''text/plain; charset=utf-8'' else []),
      Ext = demo_Ext,
      Dir = demo_Dir,
      Join = demo_Join,
      DetectContentType = (\<lambda>bs. ''application/octet-stream''),
      FormatInt = (\<lambda>i. ''0''),
      FormatTime = (\<lambda>t. ''Thu, 01 Jan 1970 00:00:00 GMT''),
      Now = 0\<rparr>"

definition demo_info :: "string \<Rightarrow> nat \<Rightarrow> bool \<Rightarrow> FileInfo" where
  "demo_info nm n d = \<lparr>Name = nm, Size = int n, ModTime = 0, IsDir = d\<rparr>"

definition demo_file :: "string \<Rightarrow> string \<Rightarrow> remote_file" where
  "demo_file nm bs =
     \<lparr>contents = bs, stat_result = Inr (demo_info nm (length bs) False),
      read_fault = None, seek_fault = None, close_fault = None\<rparr>"

definition demo_dir :: "string \<Rightarrow> remote_file" where
  "demo_dir nm =
     \<lparr>contents = [], stat_result = Inr (demo_info nm 4096 True),
      read_fault = None, seek_fault = None, close_fault = None\<rparr>"

definition demo_sftp :: sftp_Client where
  "demo_sftp =
     \<lparr>sftp_id = 1,
      lookup = (\<lambda>p.
        if p = ''/home/user'' then Inr (demo_dir ''user'')
        else if p = ''/home/user/hello.txt'' then Inr (demo_file ''hello.txt'' ''hi!'')
        else if p = ''/home/user/notes'' then Inr (demo_file ''notes'' ''hi!'')
        else if p = ''/home/user/blob'' then Inr (demo_file ''blob'' (replicate 600 (CHR ''a'')))
        else Inl (StatusError 2 ''no such file'')),
      listing = (\<lambda>d.
        if d = ''/home'' then Inr [demo_info ''user'' 4096 True, demo_info ''guest'' 4096 True]
        else if d = ''/home/user''
        then Inr [demo_info ''notes'' 3 False, demo_info ''blob'' 600 False,
                  demo_info ''hello.txt'' 3 False]
        else Inl (StatusError 2 ''no such file'')),
      sftp_close = None\<rparr>"

definition demo_ssh :: ssh_Client where
  "demo_ssh = \<lparr>ssh_id = 1, subsystem = Inr demo_sftp, ssh_close = None\<rparr>"

definition demo_pair :: clientPair where
  "demo_pair = \<lparr>sshc = demo_ssh, sftpc = demo_sftp\<rparr>"

text \<open>The same connection to a server on which every path opens the one file given.\<close>

definition demo_only :: "remote_file \<Rightarrow> clientPair" where
  "demo_only rf = demo_pair\<lparr>sftpc := demo_sftp\<lparr>lookup := \<lambda>p. Inr rf\<rparr>\<rparr>"

text \<open>A second connection, whose SFTP client fails to close.\<close>

definition stuck_pair :: clientPair where
  "stuck_pair =
     \<lparr>sshc = \<lparr>ssh_id = 2, subsystem = Inl (OtherError ''unused''), ssh_close = None\<rparr>,
      sftpc = demo_sftp\<lparr>sftp_id := 2, sftp_close := Some (OtherError ''close failed'')\<rparr>\<rparr>"

text \<open>
  A network on which \<^verbatim>\<open>h1:22\<close> answers, each dial giving a connection of its own, and
  no other host does.
\<close>

definition demo_net :: network where
  "demo_net n host cfg =
     (if host = ''h1:22'' then Inr (demo_ssh\<lparr>ssh_id := 10 + n\<rparr>)
      else Inl (OtherError ''connection refused''))"

definition demo_fs :: FileSystem where
  "demo_fs = \<lparr>pair = demo_pair, path = ''/home/user''\<rparr>"

definition demo_request :: "string \<Rightarrow> string \<Rightarrow> Request" where
  "demo_request m p = \<lparr>Method = m, URL_Host = ''h1:22'', URL_Path = p\<rparr>"

subsection \<open>Paths\<close>

text \<open>
  \<^verbatim>\<open>filepath.Clean\<close>, \<^verbatim>\<open>filepath.Dir\<close> and \<^verbatim>\<open>filepath.Join\<close> as they are on a system
  whose separator is \<^verbatim>\<open>/\<close> and whose paths have no volume name. \<^verbatim>\<open>Clean\<close> follows
  its documented rules on the elements between separators: an empty element and \<^verbatim>\<open>.\<close>
  are dropped; \<^verbatim>\<open>..\<close> removes the element before it, unless that is \<^verbatim>\<open>..\<close> itself or
  there is none, in which case it is dropped in a rooted path and kept in another; the
  empty result is \<^verbatim>\<open>.\<close>. \<^verbatim>\<open>Dir\<close> cleans what precedes the last element, the last
  separator included; \<^verbatim>\<open>Join\<close> of two elements cleans them joined by a separator, from
  the first that is not empty. \<open>plain\<close> holds of an element that \<^verbatim>\<open>Clean\<close> keeps as it is.
\<close>

fun split_sep :: "string \<Rightarrow> string list" where
  "split_sep [] = [[]]"
| "split_sep (c # cs) =
     (if c = CHR ''/'' then [] # split_sep cs
      else (case split_sep cs of [] \<Rightarrow> [[c]] | w # ws \<Rightarrow> (c # w) # ws))"

fun join_sep :: "string list \<Rightarrow> string" where
  "join_sep [] = []"
| "join_sep [g] = g"
| "join_sep (g # h # gs) = g @ CHR ''/'' # join_sep (h # gs)"

fun clean_parts :: "bool \<Rightarrow> string list \<Rightarrow> string list \<Rightarrow> string list" where
  "clean_parts rooted acc [] = rev acc"
| "clean_parts rooted acc (c # cs) =
     (if c = [] \<or> c = ''.'' then clean_parts rooted acc cs
      else if c = ''..''
      then (case acc of
              [] \<Rightarrow> if rooted then clean_parts rooted [] cs
                    else clean_parts rooted [''..''] cs
            | a # as \<Rightarrow> if a = ''..'' then clean_parts rooted (''..'' # acc) cs
                        else clean_parts rooted as cs)
      else clean_parts rooted (c # acc) cs)"

definition unix_Clean :: "string \<Rightarrow> string" where
  "unix_Clean p =
     (if p = [] then ''.''
      else (let rooted = (hd p = CHR ''/'');
                body = join_sep (clean_parts rooted [] (split_sep p))
            in if rooted then CHR ''/'' # body
               else if body = [] then ''.'' else body))"

definition unix_Dir :: "string \<Rightarrow> string" where
  "unix_Dir p = unix_Clean (rev (dropWhile (\<lambda>c. c \<noteq> CHR ''/'') (rev p)))"

definition unix_Join :: "string \<Rightarrow> string \<Rightarrow> string" where
  "unix_Join a b =
     (if a \<noteq> [] then unix_Clean (a @ CHR ''/'' # b)
      else if b \<noteq> [] then unix_Clean b
      else [])"

definition plain :: "string \<Rightarrow> bool" where
  "plain g = (g \<noteq> [] \<and> CHR ''/'' \<notin> set g \<and> g \<noteq> ''.'' \<and> g \<noteq> ''..'')"

text \<open>
  The standard library of the examples with these functions for \<^verbatim>\<open>filepath.Dir\<close> and
  \<^verbatim>\<open>filepath.Join\<close>; a FileSystem whose root path was given with a trailing separator,
  as in \<^verbatim>\<open>sftp://h1:22/home/user/\<close>, \<^verbatim>\<open>NewFileSystem\<close> keeping the path of the URL as
  it is written; and the handle that \<^verbatim>\<open>Open\<close> returns there for \<^verbatim>\<open>/hello.txt\<close>.
\<close>

definition unix_lib :: stdlib where
  "unix_lib = demo_lib\<lparr>Dir := unix_Dir, Join := unix_Join\<rparr>"

definition slash_fs :: FileSystem where
  "slash_fs = \<lparr>pair = demo_pair, path = ''/home/user/''\<rparr>"

definition slash_handle :: File where
  "slash_handle =
     \<lparr>handle = \<lparr>remote = demo_file ''hello.txt'' ''hi!'', cursor = 0, closed = False\<rparr>,
      file_sftpc = demo_sftp, name = ''/home/user/'', offset = 0, eofNext = False\<rparr>"

section \<open>Properties\<close>

subsection \<open>Responses\<close>

lemma httpResponse_Body: "Body (httpResponse lib code b h) = b"
  by (simp add: httpResponse_def Let_def)

lemma httpResponse_StatusCode: "StatusCode (httpResponse lib code b h) = code"
  by (simp add: httpResponse_def Let_def)

lemma httpResponse_Content_Type:
  assumes "h ''Content-Type'' = Some [v]" and "v \<noteq> []"
  shows "Header (httpResponse lib code b h) ''Content-Type'' = Some [v]"
  using assms
  by (simp add: httpResponse_def Let_def H_Set_def H_Get_def H_AddAll_def H_Add_def)

subsection \<open>Copying from a file\<close>

lemma read_upto_frame:
  "read_upto f n = (bs, er, f') \<Longrightarrow> f' = f\<lparr>cursor := cursor f + length bs\<rparr>"
  by (auto simp: read_upto_def Let_def)

lemma read_upto_healthy:
  assumes "read_fault (remote f) = None"
  shows "read_upto f n =
           (take n (drop (cursor f) (contents (remote f))),
            (if n \<le> length (contents (remote f)) - cursor f then None else Some EOF),
            f\<lparr>cursor := cursor f + min n (length (contents (remote f)) - cursor f)\<rparr>)"
  using assms by (auto simp: read_upto_def Let_def min_def)

lemma CopyN_frame:
  assumes "CopyN wr d f n tr = (res, d', f', tr')"
  shows "remote f' = remote f \<and> closed f' = closed f \<and> tr' = tr @ [EvRead n]"
proof -
  obtain bs er g where ru: "read_upto f (nat n) = (bs, er, g)"
    by (cases "read_upto f (nat n)") auto
  have g: "g = f\<lparr>cursor := cursor f + length bs\<rparr>"
    using read_upto_frame [OF ru] .
  from assms ru have "f' = g \<and> tr' = tr @ [EvRead n]"
    by (auto simp: CopyN_def Let_def split: prod.splits)
  with g show ?thesis by simp
qed

lemma CopyN_Buffer_short:
  assumes "read_fault (remote f) = None" and "cursor f = 0"
      and "length (contents (remote f)) < 512"
  shows "CopyN Buffer_Write [] f 512 tr =
           ((int (length (contents (remote f))), Some EOF), contents (remote f),
            f\<lparr>cursor := length (contents (remote f))\<rparr>, tr @ [EvRead 512])"
  using assms
  by (cases "contents (remote f) = []")
    (simp_all add: CopyN_def read_upto_healthy Buffer_Write_def Let_def min_def)

lemma CopyN_Buffer_long:
  assumes "read_fault (remote f) = None" and "cursor f = 0"
      and "512 \<le> length (contents (remote f))"
  shows "CopyN Buffer_Write [] f 512 tr =
           ((512, None), take 512 (contents (remote f)), f\<lparr>cursor := 512\<rparr>, tr @ [EvRead 512])"
proof -
  from assms(3) have "take 512 (contents (remote f)) \<noteq> []"
    by (cases "contents (remote f)") auto
  with assms show ?thesis
    by (simp add: CopyN_def read_upto_healthy Buffer_Write_def Let_def min_def)
qed

subsection \<open>get\<close>

lemma get_opened:
  assumes "lookup (sftpc p) (URL_Path r) = Inr rf"
      and "stat_result rf = Inr st"
  shows "get lib p r tr =
     (let f = \<lparr>remote = rf, cursor = 0, closed = False\<rparr>;
          tr2 = tr @ [EvOpen (URL_Path r), EvStat];
          h = H_Set (H_Set Map.empty ''Content-Length'' (FormatInt lib (Size st)))
                ''Last-Modified'' (FormatTime lib (ModTime st));
          cType = TypeByExtension lib (Ext lib (Name st))
      in if cType \<noteq> []
         then ((Some (httpResponse lib StatusOK (Some (PipeReader f (Size st)))
                        (H_Set h ''Content-Type'' cType)), None), tr2)
         else
           (case CopyN Buffer_Write [] f 512 tr2 of
              ((rn, Some e), buf, f1, tr3) \<Rightarrow> ((None, Some e), tr3)
            | ((rn, None), buf, f1, tr3) \<Rightarrow>
                (case file_Seek f1 0 tr3 of
                   (Inl e, f2, tr4) \<Rightarrow> ((None, Some e), tr4)
                 | (Inr off, f2, tr4) \<Rightarrow>
                     ((Some (httpResponse lib StatusOK (Some (PipeReader f2 (Size st)))
                               (H_Set h ''Content-Type''
                                  (DetectContentType lib (take (nat rn) buf)))), None),
                      tr4))))"
  using assms by (simp add: get_def sftp_Open_def file_Stat_def Let_def)

lemma file_Seek_0:
  "file_Seek f 0 tr = (Inr off, f2, tr') \<Longrightarrow> f2 = f\<lparr>cursor := 0\<rparr>"
  by (auto simp: file_Seek_def split: option.splits)

lemma get_body:
  assumes g: "get lib p r tr = ((Some resp, None), tr')"
      and l: "lookup (sftpc p) (URL_Path r) = Inr rf"
      and s: "stat_result rf = Inr st"
  shows "Body resp = Some (PipeReader \<lparr>remote = rf, cursor = 0, closed = False\<rparr> (Size st))"
proof (cases "TypeByExtension lib (Ext lib (Name st)) = []")
  case False
  with g show ?thesis
    by (auto simp: get_opened [OF l s] Let_def httpResponse_Body)
next
  case True
  let ?f = "\<lparr>remote = rf, cursor = 0, closed = False\<rparr>"
  let ?tr2 = "tr @ [EvOpen (URL_Path r), EvStat]"
  obtain rn ce buf f1 tr3 where c: "CopyN Buffer_Write [] ?f 512 ?tr2 = ((rn, ce), buf, f1, tr3)"
    by (cases "CopyN Buffer_Write [] ?f 512 ?tr2") auto
  have f1: "remote f1 = rf \<and> closed f1 = False"
    using CopyN_frame [OF c] by simp
  obtain sr f2 tr4 where k: "file_Seek f1 0 tr3 = (sr, f2, tr4)"
    by (cases "file_Seek f1 0 tr3") auto
  from g True c k have "\<exists>off. sr = Inr off"
    and resp: "Body resp = Some (PipeReader f2 (Size st))"
    by (auto simp: get_opened [OF l s] Let_def httpResponse_Body split: option.splits sum.splits)
  then obtain off where "sr = Inr off" by blast
  with k have "f2 = f1\<lparr>cursor := 0\<rparr>" using file_Seek_0 by blast
  with f1 have "f2 = ?f" by (cases f1) simp
  with resp show ?thesis by simp
qed

lemma get_sniff_short:
  assumes l: "lookup (sftpc p) (URL_Path r) = Inr rf"
      and s: "stat_result rf = Inr st"
      and "TypeByExtension lib (Ext lib (Name st)) = []"
      and "read_fault rf = None"
      and "length (contents rf) < 512"
  shows "get lib p r tr = ((None, Some EOF), tr @ [EvOpen (URL_Path r), EvStat, EvRead 512])"
  using assms(3-)
  by (simp add: get_opened [OF l s] Let_def CopyN_Buffer_short)

lemma get_sniff_long:
  assumes l: "lookup (sftpc p) (URL_Path r) = Inr rf"
      and s: "stat_result rf = Inr st"
      and "TypeByExtension lib (Ext lib (Name st)) = []"
      and "read_fault rf = None"
      and "seek_fault rf = None"
      and "512 \<le> length (contents rf)"
      and "DetectContentType lib (take 512 (contents rf)) \<noteq> []"
  shows "\<exists>resp. get lib p r tr =
             ((Some resp, None), tr @ [EvOpen (URL_Path r), EvStat, EvRead 512, EvSeek 0])
           \<and> StatusCode resp = StatusOK
           \<and> Header resp ''Content-Type'' = Some [DetectContentType lib (take 512 (contents rf))]
           \<and> Body resp = Some (PipeReader \<lparr>remote = rf, cursor = 0, closed = False\<rparr> (Size st))"
  using assms(3-)
  by (simp add: get_opened [OF l s] Let_def CopyN_Buffer_long file_Seek_def
      httpResponse_Body httpResponse_StatusCode httpResponse_Content_Type H_Set_def)

lemma get_by_extension:
  assumes l: "lookup (sftpc p) (URL_Path r) = Inr rf"
      and s: "stat_result rf = Inr st"
      and "TypeByExtension lib (Ext lib (Name st)) \<noteq> []"
  shows "\<exists>resp. get lib p r tr = ((Some resp, None), tr @ [EvOpen (URL_Path r), EvStat])
           \<and> StatusCode resp = StatusOK
           \<and> Header resp ''Content-Type'' = Some [TypeByExtension lib (Ext lib (Name st))]
           \<and> Body resp = Some (PipeReader \<lparr>remote = rf, cursor = 0, closed = False\<rparr> (Size st))"
  using assms(3)
  by (simp add: get_opened [OF l s] Let_def httpResponse_Body httpResponse_StatusCode
      httpResponse_Content_Type H_Set_def)

lemma demo_lookup_simps:
  "lookup (sftpc demo_pair) (URL_Path (demo_request m ''/home/user/hello.txt''))
     = Inr (demo_file ''hello.txt'' ''hi!'')"
  "lookup (sftpc demo_pair) (URL_Path (demo_request m ''/home/user/notes''))
     = Inr (demo_file ''notes'' ''hi!'')"
  "lookup (sftpc demo_pair) (URL_Path (demo_request m ''/home/user/blob''))
     = Inr (demo_file ''blob'' (replicate 600 (CHR ''a'')))"
  "lookup (sftpc demo_pair) (URL_Path (demo_request m ''/home/user/nope''))
     = Inl (StatusError 2 ''no such file'')"
  by (simp_all add: demo_pair_def demo_sftp_def demo_request_def)

lemma demo_file_simps:
  "stat_result (demo_file nm bs) = Inr (demo_info nm (length bs) False)"
  "contents (demo_file nm bs) = bs"
  "read_fault (demo_file nm bs) = None"
  "seek_fault (demo_file nm bs) = None"
  "close_fault (demo_file nm bs) = None"
  by (simp_all add: demo_file_def)

lemma demo_info_simps:
  "Name (demo_info nm n d) = nm"
  "Size (demo_info nm n d) = int n"
  "IsDir (demo_info nm n d) = d"
  by (simp_all add: demo_info_def)

lemma demo_lib_simps:
  "TypeByExtension demo_lib e = (if e = ''.txt'' then ''text/plain; charset=utf-8'' else [])"
  "Ext demo_lib = demo_Ext"
  "Dir demo_lib = demo_Dir"
  "Join demo_lib = demo_Join"
  "DetectContentType demo_lib bs = ''application/octet-stream''"
  by (simp_all add: demo_lib_def)

subsection \<open>Opening fails\<close>

text \<open>
  Claim C3. When opening the requested path fails, \<^verbatim>\<open>get\<close> answers by the error alone:
  for an \<^verbatim>\<open>*sftp.StatusError\<close> whose code is \<^verbatim>\<open>sftpNoSuchFile\<close> it returns a response
  with status 404 and a nil body, and a nil error; for every other error, of that type or
  not, it returns a nil response and the error. Nothing but the open reaches the server.
\<close>

theorem get_open_failure:
  assumes "lookup (sftpc p) (URL_Path r) = Inl e"
  shows "get lib p r tr =
           ((if (\<exists>msg. e = StatusError sftpNoSuchFile msg)
             then (Some (httpResponse lib StatusNotFound None Map.empty), None)
             else (None, Some e)),
            tr @ [EvOpen (URL_Path r)])
         \<and> StatusCode (httpResponse lib StatusNotFound None Map.empty) = 404
         \<and> Body (httpResponse lib StatusNotFound None Map.empty) = None"
  using assms
  by (cases e)
    (simp_all add: get_def sftp_Open_def httpResponse_Body httpResponse_StatusCode
      StatusNotFound_def)

theorem get_open_failure_witness:
  "fst (get demo_lib demo_pair (demo_request ''GET'' ''/home/user/nope'') [])
     = (Some (httpResponse demo_lib StatusNotFound None Map.empty), None)
   \<and> fst (get demo_lib (demo_pair\<lparr>sftpc := demo_sftp\<lparr>lookup := \<lambda>p. Inl (StatusError 3 ''permission denied'')\<rparr>\<rparr>)
            (demo_request ''GET'' ''/home/user/hello.txt'') [])
     = (None, Some (StatusError 3 ''permission denied''))
   \<and> fst (get demo_lib (demo_pair\<lparr>sftpc := demo_sftp\<lparr>lookup := \<lambda>p. Inl (OtherError ''connection lost'')\<rparr>\<rparr>)
            (demo_request ''GET'' ''/home/user/hello.txt'') [])
     = (None, Some (OtherError ''connection lost''))"
  using
    get_open_failure [of demo_pair "demo_request ''GET'' ''/home/user/nope''"
      "StatusError 2 ''no such file''" demo_lib "[]"]
    get_open_failure [of "demo_pair\<lparr>sftpc := demo_sftp\<lparr>lookup := \<lambda>p. Inl (StatusError 3 ''permission denied'')\<rparr>\<rparr>"
      "demo_request ''GET'' ''/home/user/hello.txt''" "StatusError 3 ''permission denied''" demo_lib "[]"]
    get_open_failure [of "demo_pair\<lparr>sftpc := demo_sftp\<lparr>lookup := \<lambda>p. Inl (OtherError ''connection lost'')\<rparr>\<rparr>"
      "demo_request ''GET'' ''/home/user/hello.txt''" "OtherError ''connection lost''" demo_lib "[]"]
  by (simp add: demo_lookup_simps sftpNoSuchFile_def)

subsection \<open>The content type of a file with a known extension\<close>

text \<open>
  Claim C8. When the extension table knows the extension of the file's name, \<^verbatim>\<open>get\<close>
  returns a 200 response whose \<^verbatim>\<open>Content-Type\<close> is the table's entry, and the server has
  seen an open and a stat and no read: the file handed to the streaming goroutine is the
  handle as it was opened, its cursor at byte 0.
\<close>

theorem get_recognized_extension:
  assumes "lookup (sftpc p) (URL_Path r) = Inr rf"
      and "stat_result rf = Inr st"
      and "TypeByExtension lib (Ext lib (Name st)) \<noteq> []"
  shows "\<exists>resp. get lib p r tr = ((Some resp, None), tr @ [EvOpen (URL_Path r), EvStat])
           \<and> StatusCode resp = StatusOK
           \<and> Header resp ''Content-Type'' = Some [TypeByExtension lib (Ext lib (Name st))]
           \<and> Body resp = Some (PipeReader \<lparr>remote = rf, cursor = 0, closed = False\<rparr> (Size st))"
  using assms by (rule get_by_extension)

theorem get_recognized_extension_witness:
  "\<exists>resp. get demo_lib demo_pair (demo_request ''GET'' ''/home/user/hello.txt'') []
             = ((Some resp, None), [EvOpen ''/home/user/hello.txt'', EvStat])
         \<and> StatusCode resp = 200
         \<and> Header resp ''Content-Type'' = Some [''text/plain; charset=utf-8'']
         \<and> Body resp = Some (PipeReader \<lparr>remote = demo_file ''hello.txt'' ''hi!'', cursor = 0,
                                          closed = False\<rparr> 3)"
proof -
  let ?r = "demo_request ''GET'' ''/home/user/hello.txt''"
  have l: "lookup (sftpc demo_pair) (URL_Path ?r) = Inr (demo_file ''hello.txt'' ''hi!'')"
    by (rule demo_lookup_simps)
  have s: "stat_result (demo_file ''hello.txt'' ''hi!'') = Inr (demo_info ''hello.txt'' 3 False)"
    by (simp add: demo_file_def demo_info_def)
  have t: "TypeByExtension demo_lib (Ext demo_lib (Name (demo_info ''hello.txt'' 3 False))) \<noteq> []"
    by (simp add: demo_lib_simps demo_info_simps demo_Ext_def)
  have u: "URL_Path ?r = ''/home/user/hello.txt''"
    by (simp add: demo_request_def)
  from get_recognized_extension [OF l s t, of "[]"] show ?thesis
    by (simp add: u demo_lib_simps demo_info_simps demo_Ext_def StatusOK_def)
qed

subsection \<open>The content type of a short file with an unknown extension\<close>

text \<open>
  Claim C2, at files of 3, 0, 1 and 511 bytes whose names have no extension:
  \<^verbatim>\<open>io.CopyN(buf, f, 512)\<close> reads the bytes there are, meets the end of the file and
  returns \<^verbatim>\<open>io.EOF\<close>, and \<^verbatim>\<open>get\<close> returns a nil response and that error. The server
  has seen an open, a stat and the read; no content type is sniffed, the file is not
  rewound and no response is built. By \<open>get_sniff_short\<close> the same holds for every
  readable file of fewer than 512 bytes whose extension the table does not know; by
  \<open>get_sniff_long\<close> a file of 512 bytes or more is served as the claim says.
\<close>

theorem get_short_unrecognized_fails:
  "get demo_lib demo_pair (demo_request ''GET'' ''/home/user/notes'') []
     = ((None, Some EOF), [EvOpen ''/home/user/notes'', EvStat, EvRead 512])
   \<and> fst (get demo_lib (demo_only (demo_file ''empty'' [])) (demo_request ''GET'' ''/empty'') [])
     = (None, Some EOF)
   \<and> fst (get demo_lib (demo_only (demo_file ''one'' ''x'')) (demo_request ''GET'' ''/one'') [])
     = (None, Some EOF)
   \<and> fst (get demo_lib (demo_only (demo_file ''pad'' (replicate 511 (CHR ''a''))))
            (demo_request ''GET'' ''/pad'') [])
     = (None, Some EOF)"
proof -
  let ?r = "demo_request ''GET'' ''/home/user/notes''"
  have l: "lookup (sftpc demo_pair) (URL_Path ?r) = Inr (demo_file ''notes'' ''hi!'')"
    by (rule demo_lookup_simps)
  have s: "stat_result (demo_file ''notes'' ''hi!'') = Inr (demo_info ''notes'' 3 False)"
    by (simp add: demo_file_def demo_info_def)
  have t: "TypeByExtension demo_lib (Ext demo_lib (Name (demo_info ''notes'' 3 False))) = []"
    by (simp add: demo_lib_simps demo_info_simps demo_Ext_def)
  have u: "URL_Path ?r = ''/home/user/notes''"
    by (simp add: demo_request_def)
  have a: "get demo_lib demo_pair ?r [] =
             ((None, Some EOF), [EvOpen ''/home/user/notes'', EvStat, EvRead 512])"
    using get_sniff_short [OF l s t, of "[]"] by (simp add: u demo_file_simps)
  have b: "fst (get demo_lib (demo_only (demo_file nm bs)) (demo_request ''GET'' p) [])
             = (None, Some EOF)"
    if "demo_Ext nm = []" and "length bs < 512" for nm bs p
  proof -
    have l': "lookup (sftpc (demo_only (demo_file nm bs))) (URL_Path (demo_request ''GET'' p))
                = Inr (demo_file nm bs)"
      by (simp add: demo_only_def)
    have t': "TypeByExtension demo_lib (Ext demo_lib (Name (demo_info nm (length bs) False))) = []"
      using that(1) by (simp add: demo_lib_simps demo_info_simps)
    show ?thesis
      using get_sniff_short [OF l' demo_file_simps(1) t', of "[]"] that(2)
      by (simp add: demo_file_simps)
  qed
  show ?thesis
    using a b [of "''empty''" "[]" "''/empty''"] b [of "''one''" "''x''" "''/one''"]
      b [of "''pad''" "replicate 511 (CHR ''a'')" "''/pad''"]
    by (simp add: demo_Ext_def)
qed

subsection \<open>The streaming goroutine\<close>

lemma pipe_Write_werr:
  "pipe_Write pw bs = (pw', nw, ew) \<Longrightarrow> werr pw' = werr pw"
  by (auto simp: pipe_Write_def split: option.splits if_splits)

lemma CopyN_pipe_werr:
  assumes "CopyN pipe_Write pw f n tr = (res, pw', f', tr')"
  shows "werr pw' = werr pw"
proof -
  obtain bs er g where ru: "read_upto f (nat n) = (bs, er, g)"
    by (cases "read_upto f (nat n)") auto
  show ?thesis
  proof (cases "bs = []")
    case True
    with assms ru show ?thesis
      by (auto simp: CopyN_def Let_def)
  next
    case False
    obtain q nw ew where w: "pipe_Write pw bs = (q, nw, ew)"
      by (cases "pipe_Write pw bs") auto
    with assms ru False have "pw' = q"
      by (auto simp: CopyN_def Let_def)
    with pipe_Write_werr [OF w] show ?thesis by simp
  qed
qed

lemma producer_steps:
  assumes c: "CopyN pipe_Write pw f sz tr = ((n, ce), pw1, f1, tr1)"
  shows "producer f sz pw tr =
           (None,
            (if werr pw = None
             then pw1\<lparr>werr := Some (case ce of Some e \<Rightarrow> e
                                   | None \<Rightarrow> (case close_fault (remote f) of
                                               Some e \<Rightarrow> e | None \<Rightarrow> EOF))\<rparr>
             else pw1),
            f1\<lparr>closed := True\<rparr>,
            tr @ [EvRead sz, EvCloseFile,
                  EvClosePipe (case ce of Some e \<Rightarrow> Some e | None \<Rightarrow> close_fault (remote f))])"
proof -
  have fr: "remote f1 = remote f" "tr1 = tr @ [EvRead sz]"
    using CopyN_frame [OF c] by simp_all
  have w: "werr pw1 = werr pw"
    using CopyN_pipe_werr [OF c] .
  show ?thesis
    by (cases ce; cases "close_fault (remote f)")
      (simp_all add: producer_def c file_Close_def CloseWithError_def Set_def Get_def fr w)
qed

lemma CopyN_pipe_whole:
  assumes "read_fault (remote f) = None" and "cursor f = 0"
      and "sz = int (length (contents (remote f)))"
  shows "CopyN pipe_Write io_Pipe f sz tr =
           ((sz, None), io_Pipe\<lparr>pbuf := contents (remote f)\<rparr>,
            f\<lparr>cursor := length (contents (remote f))\<rparr>, tr @ [EvRead sz])"
  using assms
  by (cases "contents (remote f) = []")
    (simp_all add: CopyN_def read_upto_healthy pipe_Write_def io_Pipe_def Let_def)

lemma producer_whole:
  assumes "read_fault (remote f) = None" and "cursor f = 0"
      and "sz = int (length (contents (remote f)))"
  shows "producer f sz io_Pipe tr =
           (None,
            \<lparr>pbuf = contents (remote f), rerr = None,
             werr = Some (case close_fault (remote f) of Some e \<Rightarrow> e | None \<Rightarrow> EOF)\<rparr>,
            f\<lparr>cursor := length (contents (remote f)), closed := True\<rparr>,
            tr @ [EvRead sz, EvCloseFile, EvClosePipe (close_fault (remote f))])"
  using producer_steps [OF CopyN_pipe_whole [OF assms], of tr]
  by (simp add: io_Pipe_def)

text \<open>
  Claim C4. Let \<^verbatim>\<open>get\<close> return a response for a file whose reads succeed and whose size,
  as \<^verbatim>\<open>Stat\<close> gives it, is the length \<open>n\<close> of its contents. Then the goroutine behind
  the body copies \<open>n\<close> bytes, closes the file, then closes the write side of the pipe, and
  a reader of the body gets the file's contents, byte for byte, and after them the error
  of the close of the file, or \<^verbatim>\<open>io.EOF\<close> when the close succeeded. For any file, size and
  pipe, the goroutine takes these three steps in this order, and closes the pipe with the
  error of the copy if it has one and otherwise with the error of the close. (For a file
  of fewer than 512 bytes whose extension the table does not know, \<^verbatim>\<open>get\<close> returns no
  response, as shown above, and the goroutine is never started.)
\<close>

theorem get_streams_file:
  assumes g: "get lib p r tr = ((Some resp, None), tr')"
      and l: "lookup (sftpc p) (URL_Path r) = Inr rf"
      and s: "stat_result rf = Inr st"
      and n: "Size st = int (length (contents rf))"
      and rd: "read_fault rf = None"
  shows "(\<exists>f. Body resp = Some (PipeReader f (Size st))
            \<and> (\<exists>pw f'. producer f (Size st) io_Pipe t =
                         (None, pw, f',
                          t @ [EvRead (Size st), EvCloseFile, EvClosePipe (close_fault rf)])
                  \<and> pbuf pw = contents rf \<and> closed f'
                  \<and> werr pw = Some (case close_fault rf of Some e \<Rightarrow> e | None \<Rightarrow> EOF))
            \<and> read_body (PipeReader f (Size st)) =
                (contents rf, Some (case close_fault rf of Some e \<Rightarrow> e | None \<Rightarrow> EOF)))
       \<and> (\<exists>k ce pw' h'. fst (CopyN pipe_Write pw h m u) = (k, ce)
            \<and> producer h m pw u =
                (None, pw', h',
                 u @ [EvRead m, EvCloseFile,
                      EvClosePipe (case ce of Some e \<Rightarrow> Some e | None \<Rightarrow> close_fault (remote h))])
            \<and> closed h'
            \<and> (if werr pw = None
                then werr pw' = Some (case ce of Some e \<Rightarrow> e
                                      | None \<Rightarrow> (case close_fault (remote h) of
                                                  Some e \<Rightarrow> e | None \<Rightarrow> EOF))
                else werr pw' = werr pw))"
proof
  let ?f = "\<lparr>remote = rf, cursor = 0, closed = False\<rparr>"
  have b: "Body resp = Some (PipeReader ?f (Size st))"
    using get_body [OF g l s] .
  have w: "\<And>v. producer ?f (Size st) io_Pipe v =
           (None,
            \<lparr>pbuf = contents rf, rerr = None,
             werr = Some (case close_fault rf of Some e \<Rightarrow> e | None \<Rightarrow> EOF)\<rparr>,
            ?f\<lparr>cursor := length (contents rf), closed := True\<rparr>,
            v @ [EvRead (Size st), EvCloseFile, EvClosePipe (close_fault rf)])"
    using producer_whole [of ?f "Size st"] rd n by simp
  show "\<exists>f. Body resp = Some (PipeReader f (Size st))
            \<and> (\<exists>pw f'. producer f (Size st) io_Pipe t =
                         (None, pw, f',
                          t @ [EvRead (Size st), EvCloseFile, EvClosePipe (close_fault rf)])
                  \<and> pbuf pw = contents rf \<and> closed f'
                  \<and> werr pw = Some (case close_fault rf of Some e \<Rightarrow> e | None \<Rightarrow> EOF))
            \<and> read_body (PipeReader f (Size st)) =
                (contents rf, Some (case close_fault rf of Some e \<Rightarrow> e | None \<Rightarrow> EOF))"
    using b by (intro exI [of _ ?f]) (simp add: w read_body_def)
next
  obtain k ce pw1 h1 u1 where c: "CopyN pipe_Write pw h m u = ((k, ce), pw1, h1, u1)"
    by (cases "CopyN pipe_Write pw h m u") auto
  have w1: "werr pw1 = werr pw"
    using CopyN_pipe_werr [OF c] .
  show "\<exists>k ce pw' h'. fst (CopyN pipe_Write pw h m u) = (k, ce)
            \<and> producer h m pw u =
                (None, pw', h',
                 u @ [EvRead m, EvCloseFile,
                      EvClosePipe (case ce of Some e \<Rightarrow> Some e | None \<Rightarrow> close_fault (remote h))])
            \<and> closed h'
            \<and> (if werr pw = None
                then werr pw' = Some (case ce of Some e \<Rightarrow> e
                                      | None \<Rightarrow> (case close_fault (remote h) of
                                                  Some e \<Rightarrow> e | None \<Rightarrow> EOF))
                else werr pw' = werr pw)"
    by (intro exI [of _ k] exI [of _ ce]) (simp add: producer_steps [OF c] c w1)
qed

theorem get_streams_file_witness:
  "\<exists>resp tr'. get demo_lib demo_pair (demo_request ''GET'' ''/home/user/hello.txt'') []
                 = ((Some resp, None), tr')
     \<and> (\<exists>f. Body resp = Some (PipeReader f 3)
             \<and> read_body (PipeReader f 3) = (''hi!'', Some EOF))"
proof -
  let ?r = "demo_request ''GET'' ''/home/user/hello.txt''"
  let ?rf = "demo_file ''hello.txt'' ''hi!''"
  let ?st = "demo_info ''hello.txt'' 3 False"
  have l: "lookup (sftpc demo_pair) (URL_Path ?r) = Inr ?rf"
    by (rule demo_lookup_simps)
  have s: "stat_result ?rf = Inr ?st"
    by (simp add: demo_file_def demo_info_def)
  have t: "TypeByExtension demo_lib (Ext demo_lib (Name ?st)) \<noteq> []"
    by (simp add: demo_lib_simps demo_info_simps demo_Ext_def)
  have n: "Size ?st = int (length (contents ?rf))"
    by (simp add: demo_info_simps demo_file_simps)
  have rd: "read_fault ?rf = None"
    by (simp add: demo_file_simps)
  obtain resp where g: "get demo_lib demo_pair ?r [] = ((Some resp, None), [] @ [EvOpen (URL_Path ?r), EvStat])"
    using get_by_extension [OF l s t, of "[]"] by blast
  from get_streams_file [OF g l s n rd] g show ?thesis
    by (simp add: demo_info_simps demo_file_simps) blast
qed

subsection \<open>Closing a FileSystem\<close>

text \<open>
  Claim C6. \<^verbatim>\<open>FileSystem.Close\<close> closes the SFTP client and then the SSH client, whatever
  the first close returns, and returns the error of the first close if it has one and
  otherwise that of the second: an error of the second close is dropped when the first
  failed.
\<close>

theorem FileSystem_Close_first_error:
  "FileSystem_Close fs tr =
     ((case sftp_close (sftpc (pair fs)) of
         Some e \<Rightarrow> Some e
       | None \<Rightarrow> ssh_close (sshc (pair fs))),
      tr @ [EvCloseSFTP (sftp_id (sftpc (pair fs))), EvCloseSSH (ssh_id (sshc (pair fs)))])"
  by (cases "sftp_close (sftpc (pair fs))")
    (simp_all add: FileSystem_Close_def sftp_Close_def ssh_Close_def Set_def Get_def)

theorem FileSystem_Close_first_error_witness:
  "FileSystem_Close
     (demo_fs\<lparr>pair := stuck_pair\<lparr>sshc := demo_ssh\<lparr>ssh_close := Some (OtherError ''broken pipe'')\<rparr>\<rparr>\<rparr>) []
     = (Some (OtherError ''close failed''), [EvCloseSFTP 2, EvCloseSSH 1])
   \<and> FileSystem_Close
     (demo_fs\<lparr>pair := demo_pair\<lparr>sshc := demo_ssh\<lparr>ssh_close := Some (OtherError ''broken pipe'')\<rparr>\<rparr>\<rparr>) []
     = (Some (OtherError ''broken pipe''), [EvCloseSFTP 1, EvCloseSSH 1])
   \<and> FileSystem_Close demo_fs [] = (None, [EvCloseSFTP 1, EvCloseSSH 1])"
  using
    FileSystem_Close_first_error
      [of "demo_fs\<lparr>pair := stuck_pair\<lparr>sshc := demo_ssh\<lparr>ssh_close := Some (OtherError ''broken pipe'')\<rparr>\<rparr>\<rparr>" "[]"]
    FileSystem_Close_first_error
      [of "demo_fs\<lparr>pair := demo_pair\<lparr>sshc := demo_ssh\<lparr>ssh_close := Some (OtherError ''broken pipe'')\<rparr>\<rparr>\<rparr>" "[]"]
    FileSystem_Close_first_error [of demo_fs "[]"]
  by (simp add: demo_fs_def stuck_pair_def demo_pair_def demo_ssh_def demo_sftp_def)

subsection \<open>The pool of connections\<close>

lemma dialSSHSFTP_trace:
  "\<exists>evs. snd (dialSSHSFTP net host c tr) = tr @ EvDial host c # evs \<and> filter is_dial evs = []"
  by (simp add: dialSSHSFTP_def split: sum.splits)

lemma dialSSHSFTP_dials:
  "dials (snd (dialSSHSFTP net host c tr)) = dials tr + 1"
  by (simp add: dialSSHSFTP_def dials_def split: sum.splits)

lemma Dial_default:
  "Dial net host (config rt) rt tr =
     (case dialSSHSFTP net host (config rt) tr of
        (Inl e, tr') \<Rightarrow> (Some e, rt, tr')
      | (Inr pr, tr') \<Rightarrow> (None, rt\<lparr>conn := (conn rt)(host \<mapsto> pr)\<rparr>, tr'))"
  by (simp add: Dial_def)

lemma lazyDial_pooled:
  "conn rt host = Some p \<Longrightarrow> lazyDial net host rt tr = ((Some p, None), rt, tr)"
  by (simp add: lazyDial_def)

lemma lazyDial_absent:
  "conn rt host = None \<Longrightarrow>
   lazyDial net host rt tr =
     (case dialSSHSFTP net host (config rt) tr of
        (Inl e, tr') \<Rightarrow> ((None, Some e), rt, tr')
      | (Inr pr, tr') \<Rightarrow> ((Some pr, None), rt\<lparr>conn := (conn rt)(host \<mapsto> pr)\<rparr>, tr'))"
  by (simp add: lazyDial_def Dial_default split: prod.splits sum.splits)

lemma lazyDial_pools:
  assumes "lazyDial net host rt tr = ((Some p, None), rt1, tr1)"
  shows "conn rt1 host = Some p \<and> dials tr1 \<le> dials tr + 1"
proof (cases "conn rt host")
  case (Some q)
  with assms show ?thesis
    by (simp add: lazyDial_pooled)
next
  case None
  obtain res tr' where d: "dialSSHSFTP net host (config rt) tr = (res, tr')"
    by (cases "dialSSHSFTP net host (config rt) tr") auto
  have "dials tr' = dials tr + 1"
    using dialSSHSFTP_dials [of net host "config rt" tr] d by simp
  with assms None d show ?thesis
    by (cases res) (auto simp: lazyDial_absent)
qed

text \<open>
  Claim C7. When the pool holds a pair for the host, \<^verbatim>\<open>lazyDial\<close> returns it and dials
  nothing: pool and trace stay as they are. When it holds none, \<^verbatim>\<open>lazyDial\<close> dials once,
  with the default configuration of the RoundTripper; a pair that the dial gives is put
  into the pool under the host and returned, and an error of the dial is returned with the
  pool unchanged. So when one call returns a pair, the next call for the same host returns
  that pair and dials nothing, however the network would answer a second dial, and the two
  calls together dial at most once.
\<close>

theorem lazyDial_reuses_connection:
  "(conn rt host = Some p \<longrightarrow> lazyDial net host rt tr = ((Some p, None), rt, tr))
   \<and> (conn rt host = None \<longrightarrow>
        lazyDial net host rt tr =
          (case dialSSHSFTP net host (config rt) tr of
             (Inl e, tr') \<Rightarrow> ((None, Some e), rt, tr')
           | (Inr pr, tr') \<Rightarrow> ((Some pr, None), rt\<lparr>conn := (conn rt)(host \<mapsto> pr)\<rparr>, tr'))
        \<and> (\<exists>evs. snd (dialSSHSFTP net host (config rt) tr) = tr @ EvDial host (config rt) # evs
                  \<and> filter is_dial evs = []))
   \<and> (lazyDial net host rt tr = ((Some q, None), rt1, tr1) \<longrightarrow>
        lazyDial net host rt1 tr1 = ((Some q, None), rt1, tr1) \<and> dials tr1 \<le> dials tr + 1)"
  using lazyDial_pools [of net host rt tr q rt1 tr1]
  by (auto simp: lazyDial_pooled lazyDial_absent dialSSHSFTP_trace)

theorem lazyDial_reuses_connection_witness:
  "(\<exists>q rt1 tr1. lazyDial demo_net ''h1:22'' (NewRoundTripper None) [] = ((Some q, None), rt1, tr1)
       \<and> ssh_id (sshc q) = 10
       \<and> tr1 = [EvDial ''h1:22'' None, EvNewClient 10]
       \<and> lazyDial demo_net ''h1:22'' rt1 tr1 = ((Some q, None), rt1, tr1))
   \<and> lazyDial demo_net ''h2:22'' (NewRoundTripper None) []
       = ((None, Some (OtherError ''connection refused'')), NewRoundTripper None,
          [EvDial ''h2:22'' None])"
proof -
  let ?rt = "NewRoundTripper None"
  let ?q = "\<lparr>sshc = demo_ssh\<lparr>ssh_id := 10\<rparr>, sftpc = demo_sftp\<rparr>"
  let ?rt1 = "?rt\<lparr>conn := (conn ?rt)(''h1:22'' \<mapsto> ?q)\<rparr>"
  let ?tr1 = "[EvDial ''h1:22'' None, EvNewClient 10]"
  have c: "conn ?rt ''h1:22'' = None" "conn ?rt ''h2:22'' = None" "config ?rt = None"
    by (simp_all add: NewRoundTripper_def)
  have d1: "dialSSHSFTP demo_net ''h1:22'' None [] = (Inr ?q, ?tr1)"
    by (simp add: dialSSHSFTP_def demo_net_def dials_def demo_ssh_def)
  have d2: "dialSSHSFTP demo_net ''h2:22'' None [] = (Inl (OtherError ''connection refused''), [EvDial ''h2:22'' None])"
    by (simp add: dialSSHSFTP_def demo_net_def dials_def)
  note t1 = lazyDial_reuses_connection [of ?rt "''h1:22''" ?q demo_net "[]" ?q ?rt1 ?tr1]
  note t2 = lazyDial_reuses_connection [of ?rt "''h2:22''" ?q demo_net "[]" ?q ?rt1 ?tr1]
  have a: "lazyDial demo_net ''h1:22'' ?rt [] = ((Some ?q, None), ?rt1, ?tr1)"
    using t1 c d1 by simp
  have b: "lazyDial demo_net ''h1:22'' ?rt1 ?tr1 = ((Some ?q, None), ?rt1, ?tr1)"
    using t1 a by simp
  have e: "lazyDial demo_net ''h2:22'' ?rt [] = ((None, Some (OtherError ''connection refused'')), ?rt, [EvDial ''h2:22'' None])"
    using t2 c d2 by simp
  from a b e show ?thesis
    by (simp add: demo_ssh_def)
qed

subsection \<open>Requests that are not GET\<close>

text \<open>
  Claim C10. For a request whose method is not \<^verbatim>\<open>GET\<close>, \<^verbatim>\<open>RoundTrip\<close> first resolves
  the host as \<^verbatim>\<open>lazyDial\<close> does, dialling it when the pool has no pair for it. When that
  fails, the result is a nil response and the error of the dial, and no 405; when it
  succeeds, the result is a response with status 405 and a nil body, and a nil error. Pool
  and trace are left as \<^verbatim>\<open>lazyDial\<close> leaves them.
\<close>

theorem RoundTrip_other_method:
  assumes "Method r \<noteq> ''GET''"
  shows "RoundTrip lib net r rt tr =
           (case lazyDial net (URL_Host r) rt tr of
              ((p, Some e), rt', tr') \<Rightarrow> ((None, Some e), rt', tr')
            | ((p, None), rt', tr') \<Rightarrow>
                ((Some (httpResponse lib StatusMethodNotAllowed None Map.empty), None), rt', tr'))
         \<and> (conn rt (URL_Host r) = None \<and> net (dials tr) (URL_Host r) (config rt) = Inl x \<longrightarrow>
              RoundTrip lib net r rt tr =
                ((None, Some x), rt, tr @ [EvDial (URL_Host r) (config rt)]))
         \<and> (conn rt (URL_Host r) = Some q \<longrightarrow>
              RoundTrip lib net r rt tr =
                ((Some (httpResponse lib StatusMethodNotAllowed None Map.empty), None), rt, tr))
         \<and> StatusCode (httpResponse lib StatusMethodNotAllowed None Map.empty) = 405
         \<and> Body (httpResponse lib StatusMethodNotAllowed None Map.empty) = None"
proof -
  obtain p eo rt' tr' where l: "lazyDial net (URL_Host r) rt tr = ((p, eo), rt', tr')"
    by (cases "lazyDial net (URL_Host r) rt tr") auto
  have a: "RoundTrip lib net r rt tr =
           (case lazyDial net (URL_Host r) rt tr of
              ((p, Some e), rt', tr') \<Rightarrow> ((None, Some e), rt', tr')
            | ((p, None), rt', tr') \<Rightarrow>
                ((Some (httpResponse lib StatusMethodNotAllowed None Map.empty), None), rt', tr'))"
    using assms by (cases eo) (simp_all add: RoundTrip_def l)
  have b: "lazyDial net (URL_Host r) rt tr =
             ((None, Some x), rt, tr @ [EvDial (URL_Host r) (config rt)])"
    if "conn rt (URL_Host r) = None" and "net (dials tr) (URL_Host r) (config rt) = Inl x"
    using that by (simp add: lazyDial_absent dialSSHSFTP_def)
  show ?thesis
    using a b
    by (auto simp: lazyDial_pooled httpResponse_Body httpResponse_StatusCode
        StatusMethodNotAllowed_def)
qed

theorem RoundTrip_other_method_witness:
  "RoundTrip demo_lib demo_net ((demo_request ''POST'' ''/home/user/hello.txt'')\<lparr>URL_Host := ''h2:22''\<rparr>)
      (NewRoundTripper None) []
     = ((None, Some (OtherError ''connection refused'')), NewRoundTripper None,
        [EvDial ''h2:22'' None])
   \<and> (\<exists>resp rt' tr'.
         RoundTrip demo_lib demo_net (demo_request ''POST'' ''/home/user/hello.txt'')
           (NewRoundTripper None) [] = ((Some resp, None), rt', tr')
         \<and> StatusCode resp = 405 \<and> Body resp = None
         \<and> tr' = [EvDial ''h1:22'' None, EvNewClient 10])"
proof -
  let ?rt = "NewRoundTripper None"
  let ?r1 = "demo_request ''POST'' ''/home/user/hello.txt''"
  let ?r2 = "?r1\<lparr>URL_Host := ''h2:22''\<rparr>"
  let ?q = "\<lparr>sshc = demo_ssh\<lparr>ssh_id := 10\<rparr>, sftpc = demo_sftp\<rparr>"
  have m: "Method ?r1 \<noteq> ''GET''" "Method ?r2 \<noteq> ''GET''"
    by (simp_all add: demo_request_def)
  have h: "URL_Host ?r1 = ''h1:22''" "URL_Host ?r2 = ''h2:22''"
    by (simp_all add: demo_request_def)
  have c: "conn ?rt ''h1:22'' = None" "conn ?rt ''h2:22'' = None" "config ?rt = None"
    by (simp_all add: NewRoundTripper_def)
  have d1: "dialSSHSFTP demo_net ''h1:22'' None [] =
              (Inr ?q, [EvDial ''h1:22'' None, EvNewClient 10])"
    by (simp add: dialSSHSFTP_def demo_net_def dials_def demo_ssh_def)
  have n2: "demo_net (dials []) ''h2:22'' None = Inl (OtherError ''connection refused'')"
    by (simp add: demo_net_def)
  have a: "RoundTrip demo_lib demo_net ?r2 ?rt [] =
             ((None, Some (OtherError ''connection refused'')), ?rt, [EvDial ''h2:22'' None])"
    using RoundTrip_other_method [OF m(2), of demo_lib demo_net ?rt "[]"
        "OtherError ''connection refused''", THEN conjunct2, THEN conjunct1] h c n2
    by simp
  have b: "RoundTrip demo_lib demo_net ?r1 ?rt [] =
             ((Some (httpResponse demo_lib StatusMethodNotAllowed None Map.empty), None),
              ?rt\<lparr>conn := (conn ?rt)(''h1:22'' \<mapsto> ?q)\<rparr>, [EvDial ''h1:22'' None, EvNewClient 10])"
    using RoundTrip_other_method [OF m(1), of demo_lib demo_net ?rt "[]", THEN conjunct1] h c d1
    by (simp add: lazyDial_absent)
  from a b show ?thesis
    by (simp add: httpResponse_Body httpResponse_StatusCode StatusMethodNotAllowed_def)
qed

subsection \<open>Closing the pool\<close>

lemma close_loop_all:
  assumes "distinct ks"
      and "\<forall>h\<in>set ks. \<forall>p. m h = Some p \<longrightarrow> sftp_close (sftpc p) = None \<and> ssh_close (sshc p) = None"
  shows "close_loop ks m tr =
           (None, (\<lambda>h. if h \<in> set ks then None else m h),
            tr @ concat (map (\<lambda>h. case m h of None \<Rightarrow> []
                                   | Some p \<Rightarrow> [EvCloseSFTP (sftp_id (sftpc p)),
                                                 EvCloseSSH (ssh_id (sshc p))]) ks))"
  using assms
proof (induction ks arbitrary: m tr)
  case Nil
  then show ?case by simp
next
  case (Cons k ks)
  show ?case
  proof (cases "m k")
    case None
    have "close_loop ks m tr =
           (None, (\<lambda>h. if h \<in> set ks then None else m h),
            tr @ concat (map (\<lambda>h. case m h of None \<Rightarrow> []
                                   | Some p \<Rightarrow> [EvCloseSFTP (sftp_id (sftpc p)),
                                                 EvCloseSSH (ssh_id (sshc p))]) ks))"
      using Cons.prems by (intro Cons.IH) auto
    with None show ?thesis
      by (auto simp: fun_eq_iff)
  next
    case (Some p)
    let ?m = "m(k := None)"
    have ok: "sftp_close (sftpc p) = None" "ssh_close (sshc p) = None"
      using Cons.prems(2) Some by auto
    have k: "k \<notin> set ks"
      using Cons.prems(1) by simp
    have ih: "close_loop ks ?m tr' =
           (None, (\<lambda>h. if h \<in> set ks then None else ?m h),
            tr' @ concat (map (\<lambda>h. case ?m h of None \<Rightarrow> []
                                   | Some p \<Rightarrow> [EvCloseSFTP (sftp_id (sftpc p)),
                                                 EvCloseSSH (ssh_id (sshc p))]) ks))" for tr'
      using Cons.prems k by (intro Cons.IH) auto
    have same: "map (\<lambda>h. case ?m h of None \<Rightarrow> []
                          | Some p \<Rightarrow> [EvCloseSFTP (sftp_id (sftpc p)), EvCloseSSH (ssh_id (sshc p))]) ks
              = map (\<lambda>h. case m h of None \<Rightarrow> []
                          | Some p \<Rightarrow> [EvCloseSFTP (sftp_id (sftpc p)), EvCloseSSH (ssh_id (sshc p))]) ks"
      using k by (intro map_cong) auto
    have step: "close_loop (k # ks) m tr =
                  close_loop ks ?m (tr @ [EvCloseSFTP (sftp_id (sftpc p)), EvCloseSSH (ssh_id (sshc p))])"
      using Some ok by (simp add: sftp_Close_def ssh_Close_def)
    have f: "(\<lambda>h. if h \<in> set ks then None else ?m h) = (\<lambda>h. if h \<in> set (k # ks) then None else m h)"
      by (auto simp: fun_eq_iff)
    show ?thesis
      unfolding step ih same f using Some by simp
  qed
qed

lemma close_loop_stops:
  assumes "m k = Some p"
      and "sftp_close (sftpc p) = Some e \<or> sftp_close (sftpc p) = None \<and> ssh_close (sshc p) = Some e"
  shows "close_loop (k # post) m tr =
           (Some e, m,
            tr @ EvCloseSFTP (sftp_id (sftpc p))
                 # (if sftp_close (sftpc p) = None then [EvCloseSSH (ssh_id (sshc p))] else []))"
  using assms by (auto simp: sftp_Close_def ssh_Close_def)

lemma close_loop_append:
  "close_loop (xs @ ys) m tr =
     (case close_loop xs m tr of
        (Some e, m', tr') \<Rightarrow> (Some e, m', tr')
      | (None, m', tr') \<Rightarrow> close_loop ys m' tr')"
  by (induction xs arbitrary: m tr)
    (auto simp: sftp_Close_def ssh_Close_def split: option.splits)

text \<open>
  Claim C5. \<^verbatim>\<open>RoundTripper.Close\<close> visits the keys of the pool once each, in some order
  \<open>ks\<close>. When every pair closes without error, it closes, for each key in turn, the SFTP
  client and then the SSH client, empties the pool and returns nil. When the pairs of the
  keys \<open>pre\<close> visited first close without error and the pair of the next key \<open>k\<close> fails
  to close, in its SFTP client or else in its SSH client, it returns that error at once:
  the keys of \<open>pre\<close> are gone from the pool, the key \<open>k\<close> and the keys \<open>post\<close> not
  yet visited are in the pool with the pairs they had, and nothing of a pair of \<open>post\<close>
  was closed.
\<close>

theorem Close_stops_at_first_error:
  assumes d: "distinct ks" and dm: "set ks = dom (conn rt)"
  shows
    "((\<forall>h\<in>set ks. \<forall>p. conn rt h = Some p \<longrightarrow>
          sftp_close (sftpc p) = None \<and> ssh_close (sshc p) = None) \<longrightarrow>
        Close ks rt tr =
          (None, rt\<lparr>conn := Map.empty\<rparr>,
           tr @ concat (map (\<lambda>h. case conn rt h of None \<Rightarrow> []
                                  | Some p \<Rightarrow> [EvCloseSFTP (sftp_id (sftpc p)),
                                                EvCloseSSH (ssh_id (sshc p))]) ks)))
     \<and> (ks = pre @ k # post
          \<and> (\<forall>h\<in>set pre. \<forall>p. conn rt h = Some p \<longrightarrow>
                sftp_close (sftpc p) = None \<and> ssh_close (sshc p) = None)
          \<and> conn rt k = Some q
          \<and> (sftp_close (sftpc q) = Some e
               \<or> sftp_close (sftpc q) = None \<and> ssh_close (sshc q) = Some e) \<longrightarrow>
        Close ks rt tr =
          (Some e, rt\<lparr>conn := (\<lambda>h. if h \<in> set pre then None else conn rt h)\<rparr>,
           tr @ concat (map (\<lambda>h. case conn rt h of None \<Rightarrow> []
                                  | Some p \<Rightarrow> [EvCloseSFTP (sftp_id (sftpc p)),
                                                EvCloseSSH (ssh_id (sshc p))]) pre)
              @ EvCloseSFTP (sftp_id (sftpc q))
                # (if sftp_close (sftpc q) = None then [EvCloseSSH (ssh_id (sshc q))] else []))
        \<and> (\<forall>h\<in>set (k # post). h \<notin> set pre \<and> conn rt h \<noteq> None))"
proof (intro conjI impI)
  assume ok: "\<forall>h\<in>set ks. \<forall>p. conn rt h = Some p \<longrightarrow>
          sftp_close (sftpc p) = None \<and> ssh_close (sshc p) = None"
  have "(\<lambda>h. if h \<in> set ks then None else conn rt h) = Map.empty"
    using dm by (auto simp: fun_eq_iff)
  then show "Close ks rt tr =
          (None, rt\<lparr>conn := Map.empty\<rparr>,
           tr @ concat (map (\<lambda>h. case conn rt h of None \<Rightarrow> []
                                  | Some p \<Rightarrow> [EvCloseSFTP (sftp_id (sftpc p)),
                                                EvCloseSSH (ssh_id (sshc p))]) ks))"
    by (simp add: Close_def close_loop_all [OF d ok])
next
  assume a: "ks = pre @ k # post
          \<and> (\<forall>h\<in>set pre. \<forall>p. conn rt h = Some p \<longrightarrow>
                sftp_close (sftpc p) = None \<and> ssh_close (sshc p) = None)
          \<and> conn rt k = Some q
          \<and> (sftp_close (sftpc q) = Some e
               \<or> sftp_close (sftpc q) = None \<and> ssh_close (sshc q) = Some e)"
  then have ks: "ks = pre @ k # post"
    and ok: "\<forall>h\<in>set pre. \<forall>p. conn rt h = Some p \<longrightarrow>
                sftp_close (sftpc p) = None \<and> ssh_close (sshc p) = None"
    and q: "conn rt k = Some q"
    and e: "sftp_close (sftpc q) = Some e
               \<or> sftp_close (sftpc q) = None \<and> ssh_close (sshc q) = Some e"
    by simp_all
  from d ks have dp: "distinct pre" and kp: "k \<notin> set pre" and pp: "set post \<inter> set pre = {}"
    by auto
  let ?m = "\<lambda>h. if h \<in> set pre then None else conn rt h"
  have q': "?m k = Some q"
    using kp q by simp
  show "Close ks rt tr =
          (Some e, rt\<lparr>conn := ?m\<rparr>,
           tr @ concat (map (\<lambda>h. case conn rt h of None \<Rightarrow> []
                                  | Some p \<Rightarrow> [EvCloseSFTP (sftp_id (sftpc p)),
                                                EvCloseSSH (ssh_id (sshc p))]) pre)
              @ EvCloseSFTP (sftp_id (sftpc q))
                # (if sftp_close (sftpc q) = None then [EvCloseSSH (ssh_id (sshc q))] else []))"
  proof -
    let ?tr1 = "tr @ concat (map (\<lambda>h. case conn rt h of None \<Rightarrow> []
                                  | Some p \<Rightarrow> [EvCloseSFTP (sftp_id (sftpc p)),
                                                EvCloseSSH (ssh_id (sshc p))]) pre)"
    have 1: "close_loop pre (conn rt) tr = (None, ?m, ?tr1)"
      by (rule close_loop_all [OF dp ok])
    have 2: "close_loop (k # post) ?m ?tr1 =
               (Some e, ?m,
                ?tr1 @ EvCloseSFTP (sftp_id (sftpc q))
                  # (if sftp_close (sftpc q) = None then [EvCloseSSH (ssh_id (sshc q))] else []))"
      by (rule close_loop_stops [of ?m k q e, OF q' e])
    have "close_loop ks (conn rt) tr =
               (Some e, ?m,
                ?tr1 @ EvCloseSFTP (sftp_id (sftpc q))
                  # (if sftp_close (sftpc q) = None then [EvCloseSSH (ssh_id (sshc q))] else []))"
      unfolding ks close_loop_append 1 using 2 by (simp del: close_loop.simps)
    then show ?thesis
      by (simp add: Close_def)
  qed
  show "\<forall>h\<in>set (k # post). h \<notin> set pre \<and> conn rt h \<noteq> None"
    using kp pp dm ks by auto
qed

theorem Close_stops_at_first_error_witness:
  "Close [''h1:22'', ''h2:22'']
     \<lparr>config = None, conn = [''h1:22'' \<mapsto> stuck_pair, ''h2:22'' \<mapsto> demo_pair]\<rparr> []
     = (Some (OtherError ''close failed''),
        \<lparr>config = None, conn = [''h1:22'' \<mapsto> stuck_pair, ''h2:22'' \<mapsto> demo_pair]\<rparr>,
        [EvCloseSFTP 2])
   \<and> Close [''h2:22'', ''h1:22'']
     \<lparr>config = None, conn = [''h1:22'' \<mapsto> stuck_pair, ''h2:22'' \<mapsto> demo_pair]\<rparr> []
     = (Some (OtherError ''close failed''),
        \<lparr>config = None, conn = [''h1:22'' \<mapsto> stuck_pair]\<rparr>,
        [EvCloseSFTP 1, EvCloseSSH 1, EvCloseSFTP 2])
   \<and> Close [''h2:22''] \<lparr>config = None, conn = [''h2:22'' \<mapsto> demo_pair]\<rparr> []
     = (None, \<lparr>config = None, conn = Map.empty\<rparr>, [EvCloseSFTP 1, EvCloseSSH 1])"
proof -
  let ?rt2 = "\<lparr>config = None, conn = [''h1:22'' \<mapsto> stuck_pair, ''h2:22'' \<mapsto> demo_pair]\<rparr>"
  let ?rt1 = "\<lparr>config = None, conn = [''h2:22'' \<mapsto> demo_pair]\<rparr>"
  let ?e = "OtherError ''close failed''"
  have ids: "sftp_id (sftpc stuck_pair) = 2" "sftp_close (sftpc stuck_pair) = Some ?e"
    "sftp_id (sftpc demo_pair) = 1" "ssh_id (sshc demo_pair) = 1"
    "sftp_close (sftpc demo_pair) = None" "ssh_close (sshc demo_pair) = None"
    by (simp_all add: stuck_pair_def demo_pair_def demo_sftp_def demo_ssh_def)
  have d2: "distinct [''h1:22'', ''h2:22'']" "distinct [''h2:22'', ''h1:22'']"
    and d1: "distinct [''h2:22'']"
    by simp_all
  have m2: "set [''h1:22'', ''h2:22''] = dom (conn ?rt2)" "set [''h2:22'', ''h1:22''] = dom (conn ?rt2)"
    and m1: "set [''h2:22''] = dom (conn ?rt1)"
    by auto
  have a: "Close [''h1:22'', ''h2:22''] ?rt2 [] = (Some ?e, ?rt2, [EvCloseSFTP 2])"
    using Close_stops_at_first_error [OF d2(1) m2(1), of "[]" "[]" "''h1:22''" "[''h2:22'']"
        stuck_pair ?e, THEN conjunct2]
    by (simp add: ids fun_eq_iff)
  have b: "Close [''h2:22'', ''h1:22''] ?rt2 [] =
             (Some ?e, \<lparr>config = None, conn = [''h1:22'' \<mapsto> stuck_pair]\<rparr>,
              [EvCloseSFTP 1, EvCloseSSH 1, EvCloseSFTP 2])"
    using Close_stops_at_first_error [OF d2(2) m2(2), of "[]" "[''h2:22'']" "''h1:22''" "[]"
        stuck_pair ?e, THEN conjunct2]
    by (simp add: ids fun_eq_iff)
  have c: "Close [''h2:22''] ?rt1 [] = (None, \<lparr>config = None, conn = Map.empty\<rparr>,
             [EvCloseSFTP 1, EvCloseSSH 1])"
    using Close_stops_at_first_error [OF d1 m1, of "[]", THEN conjunct1]
    by (simp add: ids)
  from a b c show ?thesis by simp
qed

subsection \<open>Opening a file of a FileSystem\<close>

lemma Open_opened:
  assumes "lookup (sftpc (pair fs)) (Join lib (path fs) nm) = Inr rf"
      and "stat_result rf = Inr st"
  shows "Open lib fs nm tr =
           (Inr \<lparr>handle = \<lparr>remote = rf, cursor = 0, closed = False\<rparr>,
                 file_sftpc = sftpc (pair fs),
                 name = (if IsDir st then Join lib (path fs) nm @ ''/'' else path fs),
                 offset = 0, eofNext = False\<rparr>,
            tr @ [EvOpen (Join lib (path fs) nm), EvStat])"
  using assms by (simp add: Open_def sftp_Open_def file_Stat_def Let_def)

lemma slice_from_0:
  "0 \<le> hi \<Longrightarrow> hi \<le> int (length xs) \<Longrightarrow> slice xs 0 hi = Inr (take (nat hi) xs)"
  by (simp add: slice_def)

lemma Readdir_first:
  assumes "\<not> eofNext f" and "offset f = 0" and c: "file_sftpc f = c" and d: "Dir lib (name f) = d"
  shows "Readdir lib cnt f tr =
           (case listing c d of
              Inl e \<Rightarrow> (Inl e, f, tr @ [EvReadDir d])
            | Inr fis \<Rightarrow>
                if cnt \<le> 0 \<or> int (length fis) \<le> cnt
                then (Inr (byBaseName fis), f\<lparr>eofNext := True\<rparr>, tr @ [EvReadDir d])
                else (Inr (take (nat cnt) (byBaseName fis)), f\<lparr>offset := cnt\<rparr>,
                      tr @ [EvReadDir d]))"
proof (cases "listing c d")
  case (Inl e)
  with assms show ?thesis
    by (simp add: Readdir_def sftp_ReadDir_def)
next
  case (Inr fis)
  have len: "length (byBaseName fis) = length fis"
    by (simp add: byBaseName_def)
  show ?thesis
  proof (cases "cnt \<le> 0 \<or> int (length fis) \<le> cnt")
    case True
    with assms Inr show ?thesis
      by (simp add: Readdir_def sftp_ReadDir_def Let_def len)
  next
    case False
    then have "slice (byBaseName fis) 0 cnt = Inr (take (nat cnt) (byBaseName fis))"
      by (intro slice_from_0) (simp_all add: len)
    with assms Inr False show ?thesis
      by (simp add: Readdir_def sftp_ReadDir_def Let_def len)
  qed
qed

subsection \<open>Cleaned paths\<close>

lemma split_sep_not_Nil: "split_sep s \<noteq> []"
  by (induction s) (auto split: list.splits)

lemma split_sep_plain_append:
  "CHR ''/'' \<notin> set g \<Longrightarrow> split_sep (g @ s) = (g @ hd (split_sep s)) # tl (split_sep s)"
proof (induction g)
  case Nil
  then show ?case using split_sep_not_Nil [of s] by (cases "split_sep s") auto
next
  case (Cons c g)
  then show ?case by auto
qed

lemma split_sep_snoc_sep: "split_sep (s @ ''/'') = split_sep s @ [[]]"
proof (induction s)
  case Nil
  show ?case by simp
next
  case (Cons c s)
  then show ?case
    using split_sep_not_Nil [of s] by (cases "split_sep s") auto
qed

lemma split_sep_join_sep:
  "list_all plain gs \<Longrightarrow> gs \<noteq> [] \<Longrightarrow> split_sep (join_sep gs) = gs"
proof (induction gs rule: join_sep.induct)
  case 1
  then show ?case by simp
next
  case (2 g)
  then have "CHR ''/'' \<notin> set g" by (simp add: plain_def)
  from split_sep_plain_append [OF this, of "[]"] show ?case by simp
next
  case (3 g h gs)
  then have g: "CHR ''/'' \<notin> set g" and ih: "split_sep (join_sep (h # gs)) = h # gs"
    by (simp_all add: plain_def)
  from split_sep_plain_append [OF g, of "CHR ''/'' # join_sep (h # gs)"] ih
  show ?case by simp
qed

lemma join_sep_snoc:
  "gs \<noteq> [] \<Longrightarrow> join_sep (gs @ [g]) = join_sep gs @ CHR ''/'' # g"
  by (induction gs rule: join_sep.induct) auto

lemma join_sep_append:
  "gs \<noteq> [] \<Longrightarrow> hs \<noteq> [] \<Longrightarrow> join_sep (gs @ hs) = join_sep gs @ CHR ''/'' # join_sep hs"
proof (induction gs rule: join_sep.induct)
  case 1
  then show ?case by simp
next
  case (2 g)
  then show ?case by (cases hs) auto
next
  case (3 g h gs)
  then show ?case by auto
qed

lemma clean_parts_plain:
  "list_all (\<lambda>c. c = [] \<or> plain c) xs \<Longrightarrow>
   clean_parts r acc xs = rev acc @ filter (\<lambda>c. c \<noteq> []) xs"
  by (induction xs arbitrary: acc) (auto simp: plain_def)

lemma filter_plain: "list_all plain gs \<Longrightarrow> filter (\<lambda>c. c \<noteq> []) gs = gs"
  by (induction gs) (auto simp: plain_def)

lemma unix_Clean_root: "unix_Clean ''/'' = ''/''"
  by (simp add: unix_Clean_def)

lemma unix_Clean_trailing:
  assumes "list_all plain gs" and "gs \<noteq> []"
  shows "unix_Clean (CHR ''/'' # join_sep gs @ ''/'') = CHR ''/'' # join_sep gs"
proof -
  have s: "split_sep (CHR ''/'' # join_sep gs @ ''/'') = [] # gs @ [[]]"
    using split_sep_snoc_sep [of "join_sep gs"] split_sep_join_sep [OF assms] by simp
  have a: "list_all (\<lambda>c. c = [] \<or> plain c) ([] # gs @ [[]])"
    using assms(1) by (auto simp: list_all_iff)
  have "clean_parts True [] ([] # gs @ [[]]) = gs"
    unfolding clean_parts_plain [OF a] using filter_plain [OF assms(1)] by simp
  with s show ?thesis
    by (simp add: unix_Clean_def)
qed

lemma upto_last_sep:
  assumes "CHR ''/'' \<notin> set g"
  shows "rev (dropWhile (\<lambda>c. c \<noteq> CHR ''/'') (rev (s @ CHR ''/'' # g))) = s @ ''/''"
proof -
  have "dropWhile (\<lambda>c. c \<noteq> CHR ''/'') (rev g @ CHR ''/'' # rev s) = CHR ''/'' # rev s"
    using assms by (subst dropWhile_append2) auto
  then show ?thesis by simp
qed

lemma unix_Dir_plain:
  assumes "list_all plain gs" and "gs \<noteq> []"
  shows "unix_Dir (CHR ''/'' # join_sep gs) = CHR ''/'' # join_sep (butlast gs)"
proof -
  let ?g = "last gs" and ?bs = "butlast gs"
  have gs: "gs = ?bs @ [?g]"
    using assms(2) by simp
  have g: "CHR ''/'' \<notin> set ?g"
    using assms by (auto simp: list_all_iff plain_def)
  have bs: "list_all plain ?bs"
    using assms(1) by (auto simp: list_all_iff dest: in_set_butlastD)
  show ?thesis
  proof (cases "?bs = []")
    case True
    then have "gs = [?g]" using gs by simp
    then have "CHR ''/'' # join_sep gs = [] @ CHR ''/'' # ?g"
      by (metis append_Nil join_sep.simps(2))
    then show ?thesis
      using upto_last_sep [OF g, of "[]"] True by (simp add: unix_Dir_def unix_Clean_root)
  next
    case False
    have "CHR ''/'' # join_sep gs = (CHR ''/'' # join_sep ?bs) @ CHR ''/'' # ?g"
      using join_sep_snoc [OF False, of ?g] gs by simp
    then have "unix_Dir (CHR ''/'' # join_sep gs) = unix_Clean ((CHR ''/'' # join_sep ?bs) @ ''/'')"
      using upto_last_sep [OF g, of "CHR ''/'' # join_sep ?bs"] by (simp add: unix_Dir_def)
    then show ?thesis
      using unix_Clean_trailing [OF bs False] by simp
  qed
qed

lemma unix_Dir_trailing_sep: "unix_Dir (r @ ''/'') = unix_Clean (r @ ''/'')"
  by (simp add: unix_Dir_def)

lemma join_sep_butlast_shorter:
  assumes "list_all plain gs" and "gs \<noteq> []"
  shows "length (join_sep (butlast gs)) < length (join_sep gs)"
proof -
  have gs: "gs = butlast gs @ [last gs]"
    using assms(2) by simp
  have g: "last gs \<noteq> []"
    using assms by (auto simp: list_all_iff plain_def)
  show ?thesis
  proof (cases "butlast gs = []")
    case True
    then have "gs = [last gs]" using gs by simp
    then have "join_sep gs = last gs" by (metis join_sep.simps(2))
    with True g show ?thesis by simp
  next
    case False
    have "join_sep gs = join_sep (butlast gs) @ CHR ''/'' # last gs"
      using join_sep_snoc [OF False, of "last gs"] gs by simp
    then show ?thesis by simp
  qed
qed

lemma join_sep_append_longer:
  "gs \<noteq> [] \<Longrightarrow> length (join_sep gs) \<le> length (join_sep (gs @ hs))"
  by (cases "hs = []") (simp_all add: join_sep_append)

lemma unix_Dir_below_root:
  assumes cs: "list_all plain cs" "cs \<noteq> []" and ds: "list_all plain ds" "ds \<noteq> []"
  shows "unix_Dir (CHR ''/'' # join_sep cs) = CHR ''/'' # join_sep (butlast cs)"
    and "unix_Dir ((CHR ''/'' # join_sep cs) @ CHR ''/'' # join_sep ds)
           = CHR ''/'' # join_sep (cs @ butlast ds)"
    and "unix_Dir (CHR ''/'' # join_sep cs)
           \<noteq> unix_Dir ((CHR ''/'' # join_sep cs) @ CHR ''/'' # join_sep ds)"
proof -
  show 1: "unix_Dir (CHR ''/'' # join_sep cs) = CHR ''/'' # join_sep (butlast cs)"
    by (rule unix_Dir_plain [OF cs])
  have a: "list_all plain (cs @ ds)" "cs @ ds \<noteq> []"
    using cs ds by simp_all
  have "(CHR ''/'' # join_sep cs) @ CHR ''/'' # join_sep ds = CHR ''/'' # join_sep (cs @ ds)"
    by (simp add: join_sep_append [OF cs(2) ds(2)])
  then show 2: "unix_Dir ((CHR ''/'' # join_sep cs) @ CHR ''/'' # join_sep ds)
           = CHR ''/'' # join_sep (cs @ butlast ds)"
    using unix_Dir_plain [OF a] ds(2) by (simp add: butlast_append)
  have "length (join_sep (butlast cs)) < length (join_sep (cs @ butlast ds))"
    using join_sep_butlast_shorter [OF cs] join_sep_append_longer [OF cs(2), of "butlast ds"]
    by simp
  then have "join_sep (butlast cs) \<noteq> join_sep (cs @ butlast ds)"
    by auto
  with 1 2 show "unix_Dir (CHR ''/'' # join_sep cs)
           \<noteq> unix_Dir ((CHR ''/'' # join_sep cs) @ CHR ''/'' # join_sep ds)"
    by simp
qed

lemma unix_paths:
  "unix_Join ''/home/user'' ''/hello.txt'' = ''/home/user/hello.txt''"
  "unix_Join ''/home/user/'' ''/hello.txt'' = ''/home/user/hello.txt''"
  "unix_Dir ''/home/user'' = ''/home''"
  "unix_Dir ''/home/user/'' = ''/home/user''"
  "unix_Dir ''/home/user/hello.txt'' = ''/home/user''"
  by code_simp+

lemma unix_lib_simps:
  "Dir unix_lib = unix_Dir"
  "Join unix_lib = unix_Join"
  by (simp_all add: unix_lib_def)

lemma Open_file_handle:
  assumes "lookup (sftpc (pair fs)) (Join lib (path fs) nm) = Inr rf"
      and "stat_result rf = Inr st"
      and "\<not> IsDir st"
  shows "\<exists>file. Open lib fs nm tr = (Inr file, tr @ [EvOpen (Join lib (path fs) nm), EvStat])
           \<and> name file = path fs
           \<and> Readdir lib cnt file tr2 =
               (case listing (sftpc (pair fs)) (Dir lib (path fs)) of
                  Inl e \<Rightarrow> (Inl e, file, tr2 @ [EvReadDir (Dir lib (path fs))])
                | Inr fis \<Rightarrow>
                    if cnt \<le> 0 \<or> int (length fis) \<le> cnt
                    then (Inr (byBaseName fis), file\<lparr>eofNext := True\<rparr>,
                          tr2 @ [EvReadDir (Dir lib (path fs))])
                    else (Inr (take (nat cnt) (byBaseName fis)), file\<lparr>offset := cnt\<rparr>,
                          tr2 @ [EvReadDir (Dir lib (path fs))]))"
proof -
  let ?file = "\<lparr>handle = \<lparr>remote = rf, cursor = 0, closed = False\<rparr>,
                file_sftpc = sftpc (pair fs), name = path fs, offset = 0, eofNext = False\<rparr>"
  have o: "Open lib fs nm tr = (Inr ?file, tr @ [EvOpen (Join lib (path fs) nm), EvStat])"
    using Open_opened [OF assms(1,2)] assms(3) by simp
  have r: "Readdir lib cnt ?file tr2 =
           (case listing (sftpc (pair fs)) (Dir lib (path fs)) of
              Inl e \<Rightarrow> (Inl e, ?file, tr2 @ [EvReadDir (Dir lib (path fs))])
            | Inr fis \<Rightarrow>
                if cnt \<le> 0 \<or> int (length fis) \<le> cnt
                then (Inr (byBaseName fis), ?file\<lparr>eofNext := True\<rparr>,
                      tr2 @ [EvReadDir (Dir lib (path fs))])
                else (Inr (take (nat cnt) (byBaseName fis)), ?file\<lparr>offset := cnt\<rparr>,
                      tr2 @ [EvReadDir (Dir lib (path fs))]))"
    by (rule Readdir_first) simp_all
  show ?thesis
    using o r by (intro exI [of _ ?file]) simp
qed

subsection \<open>The directory that a file handle lists\<close>

lemma demo_dirs:
  "demo_Join ''/home/user'' ''/hello.txt'' = ''/home/user/hello.txt''"
  "demo_Join ''/home/user'' ''/'' = ''/home/user''"
  "demo_Dir ''/home/user'' = ''/home''"
  "demo_Dir ''/home/user/'' = ''/home/user''"
  "demo_Dir ''/home/user/hello.txt'' = ''/home/user''"
  by (simp_all add: demo_Join_def demo_Dir_def)

lemma demo_sorted:
  "byBaseName [demo_info ''user'' 4096 True, demo_info ''guest'' 4096 True]
     = [demo_info ''guest'' 4096 True, demo_info ''user'' 4096 True]"
  "byBaseName [demo_info ''notes'' 3 False, demo_info ''blob'' 600 False,
               demo_info ''hello.txt'' 3 False]
     = [demo_info ''blob'' 600 False, demo_info ''hello.txt'' 3 False, demo_info ''notes'' 3 False]"
  by (simp_all add: byBaseName_def demo_info_def)

text \<open>
  Claim C9, as amended. When \<^verbatim>\<open>Open\<close> succeeds on a target that is not a directory, the
  handle it returns has the root path of the FileSystem as its name, whatever logical name
  was opened, and not the path that was opened. So a first \<^verbatim>\<open>Readdir\<close> on the handle
  asks the server for the listing of \<^verbatim>\<open>filepath.Dir\<close> of the root path and pages
  through that listing. For a root path \<^verbatim>\<open>/c1/.../cn\<close> of plain elements, written without
  a trailing separator, that directory is the parent \<^verbatim>\<open>/c1/.../c(n-1)\<close> of the root, and
  it is not the directory that contains the opened file when the opened path lies below
  the root. For such a root path written with a trailing separator, \<^verbatim>\<open>/c1/.../cn/\<close>, it
  is the root directory \<^verbatim>\<open>/c1/.../cn\<close> itself, which is the directory that contains a
  file opened directly under the root.
\<close>

theorem Open_file_lists_Dir_of_root:
  assumes "lookup (sftpc (pair fs)) (Join lib (path fs) nm) = Inr rf"
      and "stat_result rf = Inr st"
      and "\<not> IsDir st"
  shows "(\<exists>file. Open lib fs nm tr = (Inr file, tr @ [EvOpen (Join lib (path fs) nm), EvStat])
           \<and> name file = path fs
           \<and> Readdir lib cnt file tr2 =
               (case listing (sftpc (pair fs)) (Dir lib (path fs)) of
                  Inl e \<Rightarrow> (Inl e, file, tr2 @ [EvReadDir (Dir lib (path fs))])
                | Inr fis \<Rightarrow>
                    if cnt \<le> 0 \<or> int (length fis) \<le> cnt
                    then (Inr (byBaseName fis), file\<lparr>eofNext := True\<rparr>,
                          tr2 @ [EvReadDir (Dir lib (path fs))])
                    else (Inr (take (nat cnt) (byBaseName fis)), file\<lparr>offset := cnt\<rparr>,
                          tr2 @ [EvReadDir (Dir lib (path fs))])))
       \<and> (Dir lib = unix_Dir
            \<and> path fs = CHR ''/'' # join_sep cs \<and> list_all plain cs \<and> cs \<noteq> []
            \<and> Join lib (path fs) nm = path fs @ CHR ''/'' # join_sep ds
            \<and> list_all plain ds \<and> ds \<noteq> [] \<longrightarrow>
              Dir lib (path fs) = CHR ''/'' # join_sep (butlast cs)
            \<and> Dir lib (Join lib (path fs) nm) = CHR ''/'' # join_sep (cs @ butlast ds)
            \<and> Dir lib (path fs) \<noteq> Dir lib (Join lib (path fs) nm))
       \<and> (Dir lib = unix_Dir
            \<and> path fs = CHR ''/'' # join_sep gs @ ''/'' \<and> list_all plain gs \<and> gs \<noteq> []
            \<and> Join lib (path fs) nm = CHR ''/'' # join_sep (gs @ [b]) \<and> plain b \<longrightarrow>
              Dir lib (path fs) = CHR ''/'' # join_sep gs
            \<and> Dir lib (Join lib (path fs) nm) = CHR ''/'' # join_sep gs)"
proof (intro conjI impI)
  show "\<exists>file. Open lib fs nm tr = (Inr file, tr @ [EvOpen (Join lib (path fs) nm), EvStat])
           \<and> name file = path fs
           \<and> Readdir lib cnt file tr2 =
               (case listing (sftpc (pair fs)) (Dir lib (path fs)) of
                  Inl e \<Rightarrow> (Inl e, file, tr2 @ [EvReadDir (Dir lib (path fs))])
                | Inr fis \<Rightarrow>
                    if cnt \<le> 0 \<or> int (length fis) \<le> cnt
                    then (Inr (byBaseName fis), file\<lparr>eofNext := True\<rparr>,
                          tr2 @ [EvReadDir (Dir lib (path fs))])
                    else (Inr (take (nat cnt) (byBaseName fis)), file\<lparr>offset := cnt\<rparr>,
                          tr2 @ [EvReadDir (Dir lib (path fs))]))"
    by (rule Open_file_handle [OF assms])
next
  assume a: "Dir lib = unix_Dir
            \<and> path fs = CHR ''/'' # join_sep cs \<and> list_all plain cs \<and> cs \<noteq> []
            \<and> Join lib (path fs) nm = path fs @ CHR ''/'' # join_sep ds
            \<and> list_all plain ds \<and> ds \<noteq> []"
  then have cs: "list_all plain cs" "cs \<noteq> []" and ds: "list_all plain ds" "ds \<noteq> []"
    and D: "Dir lib = unix_Dir" and P: "path fs = CHR ''/'' # join_sep cs"
    and J: "Join lib (path fs) nm = path fs @ CHR ''/'' # join_sep ds"
    by blast+
  note b = unix_Dir_below_root [OF cs ds]
  show "Dir lib (path fs) = CHR ''/'' # join_sep (butlast cs)"
    unfolding D P by (rule b(1))
  have f: "Dir lib (Join lib (path fs) nm)
             = unix_Dir ((CHR ''/'' # join_sep cs) @ CHR ''/'' # join_sep ds)"
    by (simp only: J D) (simp only: P)
  show "Dir lib (Join lib (path fs) nm) = CHR ''/'' # join_sep (cs @ butlast ds)"
    unfolding f by (rule b(2))
  have r: "Dir lib (path fs) = unix_Dir (CHR ''/'' # join_sep cs)"
    by (simp only: D P)
  show "Dir lib (path fs) \<noteq> Dir lib (Join lib (path fs) nm)"
    unfolding f r by (rule b(3))
next
  assume a: "Dir lib = unix_Dir
            \<and> path fs = CHR ''/'' # join_sep gs @ ''/'' \<and> list_all plain gs \<and> gs \<noteq> []
            \<and> Join lib (path fs) nm = CHR ''/'' # join_sep (gs @ [b]) \<and> plain b"
  then have gs: "list_all plain gs" "gs \<noteq> []" and b: "plain b"
    and D: "Dir lib = unix_Dir" and P: "path fs = CHR ''/'' # join_sep gs @ ''/''"
    and J: "Join lib (path fs) nm = CHR ''/'' # join_sep (gs @ [b])"
    by blast+
  have "unix_Dir ((CHR ''/'' # join_sep gs) @ ''/'') = unix_Clean ((CHR ''/'' # join_sep gs) @ ''/'')"
    by (rule unix_Dir_trailing_sep)
  then have "unix_Dir (CHR ''/'' # join_sep gs @ ''/'') = CHR ''/'' # join_sep gs"
    using unix_Clean_trailing [OF gs] by simp
  then show "Dir lib (path fs) = CHR ''/'' # join_sep gs"
    unfolding D P .
  have "list_all plain (gs @ [b])" "gs @ [b] \<noteq> []"
    using gs b by simp_all
  from unix_Dir_plain [OF this] have "unix_Dir (CHR ''/'' # join_sep (gs @ [b])) = CHR ''/'' # join_sep gs"
    by simp
  then show "Dir lib (Join lib (path fs) nm) = CHR ''/'' # join_sep gs"
    by (simp only: J D)
qed

theorem Open_file_lists_Dir_of_root_witness:
  "(\<exists>fh. Open unix_lib demo_fs ''/hello.txt'' [] = (Inr fh, [EvOpen ''/home/user/hello.txt'', EvStat])
        \<and> name fh = ''/home/user''
        \<and> Readdir unix_lib 0 fh [] =
             (Inr [demo_info ''guest'' 4096 True, demo_info ''user'' 4096 True],
              fh\<lparr>eofNext := True\<rparr>, [EvReadDir ''/home'']))
   \<and> unix_Dir ''/home/user'' = ''/home''
   \<and> unix_Dir (unix_Join ''/home/user'' ''/hello.txt'') = ''/home/user''
   \<and> unix_Dir ''/home/user/'' = ''/home/user''
   \<and> unix_Dir (unix_Join ''/home/user/'' ''/hello.txt'') = ''/home/user''"
proof -
  let ?rf = "demo_file ''hello.txt'' ''hi!''"
  let ?st = "demo_info ''hello.txt'' 3 False"
  let ?cs = "[''home'', ''user'']"
  have s: "stat_result ?rf = Inr ?st"
    by (simp add: demo_file_def demo_info_def)
  have nd: "\<not> IsDir ?st"
    by (simp add: demo_info_simps)
  have pl: "list_all plain ?cs" "?cs \<noteq> []" "list_all plain [''hello.txt'']"
    "[''hello.txt''] \<noteq> []" "plain ''hello.txt''"
    by (simp_all add: plain_def)
  have p1: "path demo_fs = ''/home/user''" and p2: "path slash_fs = ''/home/user/''"
    by (simp_all add: demo_fs_def slash_fs_def)
  have j1: "Join unix_lib (path demo_fs) ''/hello.txt'' = ''/home/user/hello.txt''"
    and j2: "Join unix_lib (path slash_fs) ''/hello.txt'' = ''/home/user/hello.txt''"
    by (simp_all add: unix_lib_simps p1 p2 unix_paths)
  have l1: "lookup (sftpc (pair demo_fs)) (Join unix_lib (path demo_fs) ''/hello.txt'') = Inr ?rf"
    unfolding j1 by (simp add: demo_fs_def demo_pair_def demo_sftp_def)
  have l2: "lookup (sftpc (pair slash_fs)) (Join unix_lib (path slash_fs) ''/hello.txt'') = Inr ?rf"
    unfolding j2 by (simp add: slash_fs_def demo_pair_def demo_sftp_def)
  note t1 = Open_file_lists_Dir_of_root [OF l1 s nd, of "[]" 0 "[]" ?cs "[''hello.txt'']" ?cs
      "''hello.txt''"]
  note t2 = Open_file_lists_Dir_of_root [OF l2 s nd, of "[]" 0 "[]" ?cs "[''hello.txt'']" ?cs
      "''hello.txt''"]
  have a1: "Dir unix_lib = unix_Dir
            \<and> path demo_fs = CHR ''/'' # join_sep ?cs \<and> list_all plain ?cs \<and> ?cs \<noteq> []
            \<and> Join unix_lib (path demo_fs) ''/hello.txt''
                = path demo_fs @ CHR ''/'' # join_sep [''hello.txt'']
            \<and> list_all plain [''hello.txt''] \<and> [''hello.txt''] \<noteq> []"
    using pl by (simp add: unix_lib_simps(1) j1) (simp add: p1)
  have a2: "Dir unix_lib = unix_Dir
            \<and> path slash_fs = CHR ''/'' # join_sep ?cs @ ''/'' \<and> list_all plain ?cs \<and> ?cs \<noteq> []
            \<and> Join unix_lib (path slash_fs) ''/hello.txt'' = CHR ''/'' # join_sep (?cs @ [''hello.txt''])
            \<and> plain ''hello.txt''"
    using pl by (simp add: unix_lib_simps(1) j2) (simp add: p2)
  from t1 a1 have d1: "Dir unix_lib (path demo_fs) = CHR ''/'' # join_sep (butlast ?cs)"
    and d2: "Dir unix_lib (Join unix_lib (path demo_fs) ''/hello.txt'')
               = CHR ''/'' # join_sep (?cs @ butlast [''hello.txt''])"
    by blast+
  from t2 a2 have d3: "Dir unix_lib (path slash_fs) = CHR ''/'' # join_sep ?cs"
    and d4: "Dir unix_lib (Join unix_lib (path slash_fs) ''/hello.txt'') = CHR ''/'' # join_sep ?cs"
    by blast+
  have e1: "unix_Dir ''/home/user'' = ''/home''"
    using d1 by (simp add: unix_lib_simps p1)
  have e2: "unix_Dir (unix_Join ''/home/user'' ''/hello.txt'') = ''/home/user''"
    using d2 by (simp add: unix_lib_simps p1)
  have e3: "unix_Dir ''/home/user/'' = ''/home/user''"
    using d3 by (simp add: unix_lib_simps p2)
  have e4: "unix_Dir (unix_Join ''/home/user/'' ''/hello.txt'') = ''/home/user''"
    using d4 by (simp add: unix_lib_simps p2)
  have ls: "listing (sftpc (pair demo_fs)) ''/home''
              = Inr [demo_info ''user'' 4096 True, demo_info ''guest'' 4096 True]"
    by (simp add: demo_fs_def demo_pair_def demo_sftp_def)
  from t1 obtain fh where o: "Open unix_lib demo_fs ''/hello.txt'' []
          = (Inr fh, [] @ [EvOpen (Join unix_lib (path demo_fs) ''/hello.txt''), EvStat])"
    and n: "name fh = path demo_fs"
    and r: "Readdir unix_lib 0 fh [] =
               (case listing (sftpc (pair demo_fs)) (Dir unix_lib (path demo_fs)) of
                  Inl e \<Rightarrow> (Inl e, fh, [] @ [EvReadDir (Dir unix_lib (path demo_fs))])
                | Inr fis \<Rightarrow>
                    if (0::int) \<le> 0 \<or> int (length fis) \<le> 0
                    then (Inr (byBaseName fis), fh\<lparr>eofNext := True\<rparr>,
                          [] @ [EvReadDir (Dir unix_lib (path demo_fs))])
                    else (Inr (take (nat 0) (byBaseName fis)), fh\<lparr>offset := 0\<rparr>,
                          [] @ [EvReadDir (Dir unix_lib (path demo_fs))]))"
    by blast
  have dd: "Dir unix_lib (path demo_fs) = ''/home''"
    using e1 by (simp add: unix_lib_simps p1)
  have o': "Open unix_lib demo_fs ''/hello.txt'' [] = (Inr fh, [EvOpen ''/home/user/hello.txt'', EvStat])"
    using o unfolding j1 by simp
  have r': "Readdir unix_lib 0 fh [] =
              (Inr [demo_info ''guest'' 4096 True, demo_info ''user'' 4096 True],
               fh\<lparr>eofNext := True\<rparr>, [EvReadDir ''/home''])"
    using r unfolding dd ls by (simp add: demo_sorted)
  show ?thesis
    using o' n r' e1 e2 e3 e4 by (simp add: p1)
qed

text \<open>
  Claim C9 as it was stated fails at the root path \<^verbatim>\<open>/home/user/\<close>: \<^verbatim>\<open>Open\<close> of
  \<^verbatim>\<open>/hello.txt\<close> succeeds on a regular file, the handle's name is the root path, and
  \<^verbatim>\<open>Readdir\<close> lists \<^verbatim>\<open>/home/user\<close>. That is the directory which contains the opened
  file \<^verbatim>\<open>/home/user/hello.txt\<close>, whose entry is in the listing, and it is not the parent
  \<^verbatim>\<open>/home\<close> of the root directory.
\<close>

theorem Open_file_lists_containing_directory:
  "Open unix_lib slash_fs ''/hello.txt'' []
     = (Inr slash_handle, [EvOpen ''/home/user/hello.txt'', EvStat])
   \<and> stat_result (remote (handle slash_handle)) = Inr (demo_info ''hello.txt'' 3 False)
   \<and> \<not> IsDir (demo_info ''hello.txt'' 3 False)
   \<and> name slash_handle = path slash_fs
   \<and> Readdir unix_lib 0 slash_handle []
     = (Inr [demo_info ''blob'' 600 False, demo_info ''hello.txt'' 3 False,
             demo_info ''notes'' 3 False],
        slash_handle\<lparr>eofNext := True\<rparr>, [EvReadDir ''/home/user''])
   \<and> unix_Dir (unix_Join (path slash_fs) ''/hello.txt'') = ''/home/user''
   \<and> unix_Dir ''/home/user'' = ''/home''"
proof -
  let ?rf = "demo_file ''hello.txt'' ''hi!''"
  let ?st = "demo_info ''hello.txt'' 3 False"
  have p: "path slash_fs = ''/home/user/''"
    by (simp add: slash_fs_def)
  have j: "Join unix_lib (path slash_fs) ''/hello.txt'' = ''/home/user/hello.txt''"
    by (simp add: unix_lib_simps p unix_paths)
  have l: "lookup (sftpc (pair slash_fs)) (Join unix_lib (path slash_fs) ''/hello.txt'') = Inr ?rf"
    unfolding j by (simp add: slash_fs_def demo_pair_def demo_sftp_def)
  have s: "stat_result ?rf = Inr ?st"
    by (simp add: demo_file_def demo_info_def)
  have nd: "\<not> IsDir ?st"
    by (simp add: demo_info_simps)
  have o: "Open unix_lib slash_fs ''/hello.txt'' []
             = (Inr slash_handle, [EvOpen ''/home/user/hello.txt'', EvStat])"
    using Open_opened [OF l s, of "[]"] nd unfolding j
    by (simp add: slash_handle_def slash_fs_def demo_pair_def)
  have d: "Dir unix_lib (name slash_handle) = ''/home/user''"
    by (simp add: unix_lib_simps slash_handle_def unix_paths)
  have ls: "listing demo_sftp ''/home/user''
              = Inr [demo_info ''notes'' 3 False, demo_info ''blob'' 600 False,
                     demo_info ''hello.txt'' 3 False]"
    by (simp add: demo_sftp_def)
  have r: "Readdir unix_lib 0 slash_handle []
     = (Inr [demo_info ''blob'' 600 False, demo_info ''hello.txt'' 3 False,
             demo_info ''notes'' 3 False],
        slash_handle\<lparr>eofNext := True\<rparr>, [EvReadDir ''/home/user''])"
    using Readdir_first [of slash_handle demo_sftp unix_lib "''/home/user''" 0 "[]"] d
    by (simp add: ls demo_sorted) (simp add: slash_handle_def)
  show ?thesis
    using o s nd r by (simp add: p unix_paths) (simp add: slash_handle_def)
qed


subsection \<open>Paging through a directory\<close>

lemma Readdir_whole:
  assumes "\<not> eofNext f" and "listing (file_sftpc f) (Dir lib (name f)) = Inr fis"
      and "cnt \<le> 0 \<or> int (length fis) \<le> cnt"
  shows "Readdir lib cnt f tr =
           (Inr (byBaseName fis), f\<lparr>eofNext := True\<rparr>, tr @ [EvReadDir (Dir lib (name f))])"
  using assms by (auto simp: Readdir_def sftp_ReadDir_def Let_def byBaseName_def)

lemma Readdir_page:
  assumes "\<not> eofNext f" and "listing (file_sftpc f) (Dir lib (name f)) = Inr fis"
      and "0 < cnt" and "cnt < int (length fis)" and "0 \<le> offset f"
      and "offset f < int (length fis)"
  shows "Readdir lib cnt f tr =
           (if int (length fis) - offset f \<le> cnt
            then (Inr (drop (nat (offset f)) (byBaseName fis)), f\<lparr>eofNext := True\<rparr>,
                  tr @ [EvReadDir (Dir lib (name f))])
            else (Inr (take (nat cnt) (drop (nat (offset f)) (byBaseName fis))),
                  f\<lparr>offset := offset f + cnt\<rparr>, tr @ [EvReadDir (Dir lib (name f))]))"
proof -
  have len: "length (byBaseName fis) = length fis"
    by (simp add: byBaseName_def)
  have "nat (offset f + cnt) - nat (offset f) = nat cnt"
    using assms(3,5) by simp
  with assms show ?thesis
    by (simp add: Readdir_def sftp_ReadDir_def Let_def len slice_def)
qed

lemma drain_done:
  "eofNext f \<Longrightarrow> drain lib cnt f tr = ([], f, tr)"
  by (simp add: drain.simps Readdir_def)

lemma drain_pages:
  assumes "0 < cnt"
      and "listing (file_sftpc f) (Dir lib (name f)) = Inr fis"
      and "\<not> eofNext f"
      and "offset f = 0 \<or> cnt < int (length fis) \<and> 0 \<le> offset f \<and> offset f < int (length fis)"
      and "drain lib cnt f tr = (pages, f', tr')"
  shows "concat pages = drop (nat (offset f)) (byBaseName fis)
           \<and> eofNext f' \<and> (\<forall>pg\<in>set pages. int (length pg) \<le> cnt)"
  using assms
proof (induction lib cnt f tr arbitrary: pages f' tr' rule: drain.induct)
  case (1 lib cnt f tr)
  let ?d = "Dir lib (name f)"
  let ?s = "byBaseName fis"
  have len: "length ?s = length fis"
    by (simp add: byBaseName_def)
  show ?case
  proof (cases "int (length fis) \<le> cnt")
    case True
    then have o: "offset f = 0"
      using "1.prems"(4) by auto
    have r: "Readdir lib cnt f tr = (Inr ?s, f\<lparr>eofNext := True\<rparr>, tr @ [EvReadDir ?d])"
      using Readdir_whole [OF "1.prems"(3,2)] True by simp
    have "drain lib cnt f tr = ([?s], f\<lparr>eofNext := True\<rparr>, tr @ [EvReadDir ?d])"
      by (subst drain.simps) (simp add: r drain_done)
    with "1.prems"(5) o True show ?thesis
      by (auto simp: len)
  next
    case False
    then have big: "cnt < int (length fis)"
      by simp
    have off: "0 \<le> offset f" "offset f < int (length fis)"
      using "1.prems"(1,4) big by auto
    note rp = Readdir_page [OF "1.prems"(3,2,1) big off, of tr]
    show ?thesis
    proof (cases "int (length fis) - offset f \<le> cnt")
      case True
      let ?pg = "drop (nat (offset f)) ?s"
      have r: "Readdir lib cnt f tr = (Inr ?pg, f\<lparr>eofNext := True\<rparr>, tr @ [EvReadDir ?d])"
        using rp True by simp
      have "drain lib cnt f tr = ([?pg], f\<lparr>eofNext := True\<rparr>, tr @ [EvReadDir ?d])"
        by (subst drain.simps) (simp add: r drain_done)
      with "1.prems"(5) True off show ?thesis
        by (auto simp: len)
    next
      case more: False
      let ?pg = "take (nat cnt) (drop (nat (offset f)) ?s)"
      let ?g = "f\<lparr>offset := offset f + cnt\<rparr>"
      let ?t = "tr @ [EvReadDir ?d]"
      have r: "Readdir lib cnt f tr = (Inr ?pg, ?g, ?t)"
        using rp more by simp
      obtain ps g' t' where dr: "drain lib cnt ?g ?t = (ps, g', t')"
        by (cases "drain lib cnt ?g ?t") auto
      have ih: "concat ps = drop (nat (offset ?g)) ?s \<and> eofNext g'
                  \<and> (\<forall>pg\<in>set ps. int (length pg) \<le> cnt)"
      proof (rule "1.IH" [OF r [symmetric] refl refl _ _ _ _ dr])
        show "0 < cnt" by (rule "1.prems"(1))
        show "listing (file_sftpc ?g) (Dir lib (name ?g)) = Inr fis"
          using "1.prems"(2) by simp
        show "\<not> eofNext ?g"
          using "1.prems"(3) by simp
        show "offset ?g = 0 \<or> cnt < int (length fis) \<and> 0 \<le> offset ?g \<and> offset ?g < int (length fis)"
          using big off more "1.prems"(1) by simp
      qed
      have "drain lib cnt f tr = (?pg # ps, g', t')"
        by (subst drain.simps) (simp add: r dr)
      with "1.prems"(5) have res: "pages = ?pg # ps" "f' = g'"
        by simp_all
      have "nat (offset f + cnt) = nat cnt + nat (offset f)"
        using off "1.prems"(1) by simp
      then have "?pg @ drop (nat (offset ?g)) ?s = drop (nat (offset f)) ?s"
        by (simp add: drop_drop [symmetric] del: drop_drop)
      with ih res "1.prems"(1) show ?thesis
        by auto
    qed
  qed
qed

lemma byBaseName_strictly_ascending:
  assumes "distinct (map Name fis)"
  shows "sorted_wrt (<) (map Name (byBaseName fis))"
proof -
  have "mset (map Name (byBaseName fis)) = mset (map Name fis)"
    by (simp add: byBaseName_def)
  then have "distinct (map Name (byBaseName fis))"
    using assms by (metis mset_eq_imp_distinct_iff)
  moreover have "sorted (map Name (byBaseName fis))"
    by (simp add: byBaseName_def)
  ultimately show ?thesis
    by (simp add: strict_sorted_iff)
qed

lemma Readdir_fixed_page_size:
  assumes "0 < cnt"
      and "listing (file_sftpc f) (Dir lib (name f)) = Inr fis"
      and "distinct (map Name fis)"
      and "\<not> eofNext f" and "offset f = 0"
      and "drain lib cnt f tr = (pages, f', tr')"
  shows "mset (concat pages) = mset fis
           \<and> sorted_wrt (<) (map Name (concat pages))
           \<and> (\<forall>pg\<in>set pages. int (length pg) \<le> cnt)
           \<and> eofNext f'
           \<and> Readdir lib cnt f' tr' = (Inl EOF, f', tr')"
proof -
  have d: "concat pages = byBaseName fis \<and> eofNext f' \<and> (\<forall>pg\<in>set pages. int (length pg) \<le> cnt)"
    using drain_pages [OF assms(1,2,4) _ assms(6)] assms(5) by simp
  then have "Readdir lib cnt f' tr' = (Inl EOF, f', tr')"
    by (simp add: Readdir_def)
  with d byBaseName_strictly_ascending [OF assms(3)] show ?thesis
    by (simp add: byBaseName_def)
qed

text \<open>
  Claim C1, at a directory of three entries read first with a page size of 1 and then
  with another one. The first call returns the first entry and moves the offset to 1. A
  second call with a count of 0, or with a count of 3 (the listing has no more entries
  than that), returns all three entries, the one already delivered included, where the
  claim has the two remaining ones; a second call with a count of 2 returns the two
  remaining ones. By \<open>Readdir_whole\<close> the first branch of \<^verbatim>\<open>Readdir\<close> returns the whole
  listing at every offset; by \<open>Readdir_fixed_page_size\<close> calls that all use one positive
  page size deliver every entry once, in ascending order of the names.
\<close>

theorem Readdir_delivers_entries_again:
  "\<exists>f0 t0 f1 t1.
      Open demo_lib demo_fs ''/'' [] = (Inr f0, t0)
    \<and> Readdir demo_lib 1 f0 t0 = (Inr [demo_info ''blob'' 600 False], f1, t1)
    \<and> offset f1 = 1 \<and> \<not> eofNext f1
    \<and> fst (Readdir demo_lib 0 f1 t1) =
         Inr [demo_info ''blob'' 600 False, demo_info ''hello.txt'' 3 False,
              demo_info ''notes'' 3 False]
    \<and> fst (Readdir demo_lib 3 f1 t1) =
         Inr [demo_info ''blob'' 600 False, demo_info ''hello.txt'' 3 False,
              demo_info ''notes'' 3 False]
    \<and> fst (Readdir demo_lib 2 f1 t1) =
         Inr [demo_info ''hello.txt'' 3 False, demo_info ''notes'' 3 False]"
proof -
  let ?fis = "[demo_info ''notes'' 3 False, demo_info ''blob'' 600 False,
               demo_info ''hello.txt'' 3 False]"
  let ?f0 = "\<lparr>handle = \<lparr>remote = demo_dir ''user'', cursor = 0, closed = False\<rparr>,
              file_sftpc = demo_sftp, name = ''/home/user/'', offset = 0, eofNext = False\<rparr>"
  let ?t0 = "[EvOpen ''/home/user'', EvStat]"
  let ?f1 = "?f0\<lparr>offset := 1\<rparr>"
  let ?t1 = "?t0 @ [EvReadDir ''/home/user'']"
  have j: "Join demo_lib (path demo_fs) ''/'' = ''/home/user''"
    by (simp add: demo_lib_simps demo_fs_def demo_dirs)
  have l: "lookup (sftpc (pair demo_fs)) (Join demo_lib (path demo_fs) ''/'') = Inr (demo_dir ''user'')"
    unfolding j by (simp add: demo_fs_def demo_pair_def demo_sftp_def)
  have s: "stat_result (demo_dir ''user'') = Inr (demo_info ''user'' 4096 True)"
    by (simp add: demo_dir_def)
  have o: "Open demo_lib demo_fs ''/'' [] = (Inr ?f0, ?t0)"
    using Open_opened [OF l s, of "[]"] unfolding j
    by (simp add: demo_info_simps demo_fs_def demo_pair_def)
  have d: "Dir demo_lib ''/home/user/'' = ''/home/user''"
    by (simp add: demo_lib_simps demo_dirs)
  have ls: "listing demo_sftp ''/home/user'' = Inr ?fis"
    by (simp add: demo_sftp_def)
  have r1: "Readdir demo_lib 1 ?f0 ?t0 = (Inr [demo_info ''blob'' 600 False], ?f1, ?t1)"
    using Readdir_first [of ?f0 demo_sftp demo_lib "''/home/user''" 1 ?t0]
    by (simp add: d ls demo_sorted)
  have r0: "Readdir demo_lib 0 ?f1 ?t1 =
              (Inr (byBaseName ?fis), ?f1\<lparr>eofNext := True\<rparr>, ?t1 @ [EvReadDir ''/home/user''])"
    using Readdir_whole [of ?f1 demo_lib ?fis 0 ?t1] by (simp add: d ls)
  have r3: "Readdir demo_lib 3 ?f1 ?t1 =
              (Inr (byBaseName ?fis), ?f1\<lparr>eofNext := True\<rparr>, ?t1 @ [EvReadDir ''/home/user''])"
    using Readdir_whole [of ?f1 demo_lib ?fis 3 ?t1] by (simp add: d ls)
  have r2: "Readdir demo_lib 2 ?f1 ?t1 =
              (Inr (drop 1 (byBaseName ?fis)), ?f1\<lparr>eofNext := True\<rparr>,
               ?t1 @ [EvReadDir ''/home/user''])"
    using Readdir_page [of ?f1 demo_lib ?fis 2 ?t1] by (simp add: d ls)
  show ?thesis
    using o r1 r0 r3 r2
    by (intro exI [of _ ?f0] exI [of _ ?t0] exI [of _ ?f1] exI [of _ ?t1]) (simp add: demo_sorted)
qed

end
